theory Spec2Isabelle
  imports Complex_Main "HOL-Library.Word" "HOL-Library.Sublist"
begin

unbundle bit_operations_syntax

section \<open>Conventions of the embedding\<close>

text \<open>
  The development embeds the short-clip pipeline of the repository: the helpers of
  \<^verbatim>\<open>utils/fileUtils\<close> (\<^verbatim>\<open>audioBufferToWav\<close>, \<^verbatim>\<open>extractAudioFromVideo\<close>,
  \<^verbatim>\<open>extractVideoFrames\<close>) and the handlers of \<^verbatim>\<open>components/ShortsCreator.tsx\<close>
  (\<^verbatim>\<open>parseSrt\<close>, \<^verbatim>\<open>handleFileChange\<close>, \<^verbatim>\<open>handleSubmit\<close>, \<^verbatim>\<open>handleDownload\<close>).

  JavaScript numbers that are finite are modelled as real numbers. Where the code computes
  new sample values (the down-mix of the audio extractor) every double-precision operation
  and every store into a \<^verbatim>\<open>Float32Array\<close> element is followed by the rounding of
  that format; elsewhere the arithmetic is exact. Where the source can observe \<^verbatim>\<open>NaN\<close> or \<^verbatim>\<open>Infinity\<close> (a media duration, the result of
  \<^verbatim>\<open>parseInt\<close>) the value is a datatype with those cases. Strings are lists of
  characters, each character standing for one code unit below 256. The user-visible
  messages of the source are Persian sentences; they are represented by the constructors
  of a datatype, one constructor per message.
\<close>

section \<open>Media durations\<close>

text \<open>
  \<^verbatim>\<open>HTMLMediaElement.duration\<close> is \<^verbatim>\<open>NaN\<close> while unknown, \<^verbatim>\<open>Infinity\<close> for an unbounded
  stream, and a finite number of seconds otherwise.
\<close>

datatype media_duration = DurationNaN | DurationInfinity | Seconds real

text \<open>\<^verbatim>\<open>duration < c\<close>: false for \<^verbatim>\<open>NaN\<close> and for \<^verbatim>\<open>Infinity\<close>.\<close>

fun duration_less :: "media_duration \<Rightarrow> real \<Rightarrow> bool" where
  "duration_less (Seconds d) c = (d < c)"
| "duration_less DurationNaN c = False"
| "duration_less DurationInfinity c = False"

section \<open>Render loop: fade opacity (handleDownload, render)\<close>

definition FADE_DURATION :: real where
  "FADE_DURATION = 0.75"

text \<open>
  \<^verbatim>\<open>let frameAlpha = 1.0;
  if (useFadeTransition) {
      if (currentTimeInClip < FADE_DURATION) frameAlpha = currentTimeInClip / FADE_DURATION;
      else if (currentTimeInClip > clipDuration - FADE_DURATION)
          frameAlpha = (clipDuration - currentTimeInClip) / FADE_DURATION;
  }\<close>
\<close>

definition frameAlpha :: "bool \<Rightarrow> real \<Rightarrow> real \<Rightarrow> real" where
  "frameAlpha useFadeTransition currentTimeInClip clipDuration =
     (if useFadeTransition then
        (if currentTimeInClip < FADE_DURATION then currentTimeInClip / FADE_DURATION
         else if currentTimeInClip > clipDuration - FADE_DURATION
              then (clipDuration - currentTimeInClip) / FADE_DURATION
         else 1)
      else 1)"

text \<open>\<^verbatim>\<open>ctx.globalAlpha = Math.max(0, Math.min(1, frameAlpha))\<close>\<close>

definition globalAlpha :: "real \<Rightarrow> real" where
  "globalAlpha a = max 0 (min 1 a)"

section \<open>Render loop: output format (handleDownload)\<close>

definition mimeTypes :: "string list" where
  "mimeTypes =
     [''video/webm;codecs=vp9,opus'', ''video/webm;codecs=vp8,opus'', ''video/webm'', ''video/mp4'']"

text \<open>
  \<^verbatim>\<open>const mimeType = mimeTypes.find(type => MediaRecorder.isTypeSupported(type)) || 'video/webm';\<close>
  The support test of the execution environment is a parameter.
\<close>

definition chooseMimeType :: "(string \<Rightarrow> bool) \<Rightarrow> string" where
  "chooseMimeType isTypeSupported =
     (case List.find isTypeSupported mimeTypes of Some t \<Rightarrow> t | None \<Rightarrow> ''video/webm'')"

text \<open>An execution environment whose encoder supports no format at all.\<close>

definition supportsNothing :: "string \<Rightarrow> bool" where
  "supportsNothing t = False"

text \<open>An execution environment that supports the MP4 container and plain WebM only.\<close>

definition supportsPlainOnly :: "string \<Rightarrow> bool" where
  "supportsPlainOnly t = (t = ''video/webm'' \<or> t = ''video/mp4'')"

section \<open>Frame sampler (extractVideoFrames)\<close>

text \<open>
  What the sampler observes of the detached video element: whether a 2D canvas context
  could be obtained, whether the element reached \<^verbatim>\<open>canplay\<close> or reported an error, its
  duration, and, for every seek position, the base64 payload of the JPEG data URL
  (\<^verbatim>\<open>dataUrl.split(',')[1]\<close>, \<open>None\<close> for \<^verbatim>\<open>undefined\<close>).
\<close>

datatype media_error = MediaErrAborted | MediaErrNetwork | MediaErrDecode
  | MediaErrSrcNotSupported | MediaErrUnknown

text \<open>
  The element either reaches \<^verbatim>\<open>canplay\<close> or fires \<^verbatim>\<open>error\<close>, with or without a
  \<^verbatim>\<open>MediaError\<close> object.
\<close>

datatype load_event = CanPlay | ErrorEvent "media_error option"

record video_source =
  hasCanvasContext :: bool
  loadEvent :: load_event
  videoDuration :: media_duration
  frameData :: "real \<Rightarrow> string option"

text \<open>The part \<^verbatim>\<open>{ inlineData: { data, mimeType } }\<close> sent to the analysis service.\<close>

record inline_data =
  data :: string
  mimeType :: string

text \<open>
  The observable effects of the sampler, in the order in which they happen: a seek
  (\<^verbatim>\<open>video.currentTime = time\<close>), a warning about a skipped frame, a call of the
  progress callback, and the release of the object URL.
\<close>

datatype sampler_event = Seek real | Warn real | Progress real | RevokeObjectURL

text \<open>The message of the error built by \<^verbatim>\<open>video.onerror\<close>.\<close>

fun loadErrorMessage :: "media_error option \<Rightarrow> string" where
  "loadErrorMessage None = ''Failed to load video file.''"
| "loadErrorMessage (Some MediaErrAborted) = ''Video playback aborted.''"
| "loadErrorMessage (Some MediaErrNetwork) = ''A network error caused the video download to fail.''"
| "loadErrorMessage (Some MediaErrDecode) =
     ''The video could not be decoded, possibly due to corruption or unsupported format.''"
| "loadErrorMessage (Some MediaErrSrcNotSupported) = ''The video source format is not supported.''"
| "loadErrorMessage (Some MediaErrUnknown) = ''An unknown error occurred while loading the video.''"

text \<open>
  The payload that passes the test \<^verbatim>\<open>!base64Data || base64Data.length < 100\<close>:
  \<open>None\<close> when the frame is skipped as near-empty.
\<close>

definition payload :: "string option \<Rightarrow> string option" where
  "payload base64Data =
     (case base64Data of
        None \<Rightarrow> None
      | Some d \<Rightarrow> if d = [] \<or> length d < 100 then None else Some d)"

text \<open>
  The loop \<^verbatim>\<open>for (let i = 0; i < frameCount; i++)\<close> of the \<^verbatim>\<open>canplay\<close> handler. The
  state is the list of frames pushed so far and the trace of effects so far.
\<close>

function sampleLoop ::
  "(real \<Rightarrow> string option) \<Rightarrow> nat \<Rightarrow> real \<Rightarrow> nat \<Rightarrow> inline_data list \<times> sampler_event list
     \<Rightarrow> inline_data list \<times> sampler_event list" where
  "sampleLoop capture frameCount interval i (frames, trace) =
     (if i < frameCount then
        (let time = real i * interval
         in case payload (capture time) of
              None \<Rightarrow>
                sampleLoop capture frameCount interval (Suc i)
                  (frames,
                   trace @ [Seek time, Warn time, Progress ((real (i + 1) / real frameCount) * 100)])
            | Some base64Data \<Rightarrow>
                sampleLoop capture frameCount interval (Suc i)
                  (frames @ [\<lparr>data = base64Data, mimeType = ''image/jpeg''\<rparr>],
                   trace @ [Seek time, Progress ((real (i + 1) / real frameCount) * 100)]))
      else (frames, trace))"
  by pat_completeness auto
termination
  by (relation "measure (\<lambda>(capture, frameCount, interval, i, st). frameCount - i)") auto

text \<open>\<^verbatim>\<open>!duration || duration === Infinity\<close>: zero, \<^verbatim>\<open>NaN\<close> and \<^verbatim>\<open>Infinity\<close> are refused.\<close>

fun usableDuration :: "media_duration \<Rightarrow> real option" where
  "usableDuration (Seconds d) = (if d = 0 then None else Some d)"
| "usableDuration DurationNaN = None"
| "usableDuration DurationInfinity = None"

text \<open>
  The promise returned by \<^verbatim>\<open>extractVideoFrames\<close>: rejected with an error message
  (\<open>Inl\<close>) or resolved with the frames (\<open>Inr\<close>), together with the trace of effects.
\<close>

definition extractVideoFrames ::
  "video_source \<Rightarrow> nat \<Rightarrow> (string + inline_data list) \<times> sampler_event list" where
  "extractVideoFrames video frameCount =
     (if \<not> hasCanvasContext video then (Inl ''Could not get canvas context.'', [])
      else
        (case loadEvent video of
           ErrorEvent mediaError \<Rightarrow> (Inl (loadErrorMessage mediaError), [RevokeObjectURL])
         | CanPlay \<Rightarrow>
             (case usableDuration (videoDuration video) of
                None \<Rightarrow> (Inl ''Could not determine video duration.'', [RevokeObjectURL])
              | Some duration \<Rightarrow>
                  (let interval = duration / real frameCount;
                       (frames, trace) = sampleLoop (frameData video) frameCount interval 0 ([], [])
                   in (Inr frames, trace @ [RevokeObjectURL])))))"

text \<open>The seek positions and the progress values of a trace, in order.\<close>

fun seeksOf :: "sampler_event list \<Rightarrow> real list" where
  "seeksOf [] = []"
| "seeksOf (Seek t # es) = t # seeksOf es"
| "seeksOf (e # es) = seeksOf es"

fun progressOf :: "sampler_event list \<Rightarrow> real list" where
  "progressOf [] = []"
| "progressOf (Progress p # es) = p # progressOf es"
| "progressOf (e # es) = progressOf es"

fun isWarn :: "sampler_event \<Rightarrow> bool" where
  "isWarn (Warn t) = True"
| "isWarn e = False"

text \<open>A source of 40 seconds whose frames at 8 s and 12 s come back near-empty.\<close>

definition demoVideo :: video_source where
  "demoVideo = \<lparr>hasCanvasContext = True, loadEvent = CanPlay, videoDuration = Seconds 40,
     frameData = (\<lambda>t. if t = 8 then None else if t = 12 then Some ''AAAA''
                       else Some (replicate 100 CHR ''A''))\<rparr>"

section \<open>Audio buffers\<close>

text \<open>
  An \<^verbatim>\<open>AudioBuffer\<close>: its sample rate and one sample sequence per channel. The Web
  Audio interface guarantees at least one channel, at least one sample frame, a positive
  sample rate, and the same length for every channel (\<open>validAudioBuffer\<close>). The sample
  rate is a whole number of hertz; the pipeline decodes at 16000 Hz.
\<close>

record AudioBuffer =
  sampleRate :: nat
  channelData :: "real list list"

definition numberOfChannels :: "AudioBuffer \<Rightarrow> nat" where
  "numberOfChannels buffer = length (channelData buffer)"

text \<open>The attribute \<^verbatim>\<open>length\<close>: the number of sample frames.\<close>

definition bufferLength :: "AudioBuffer \<Rightarrow> nat" where
  "bufferLength buffer = (case channelData buffer of [] \<Rightarrow> 0 | c # cs \<Rightarrow> length c)"

text \<open>The attribute \<^verbatim>\<open>duration\<close>: length divided by sample rate, in seconds.\<close>

definition bufferDuration :: "AudioBuffer \<Rightarrow> real" where
  "bufferDuration buffer = real (bufferLength buffer) / real (sampleRate buffer)"

definition validAudioBuffer :: "AudioBuffer \<Rightarrow> bool" where
  "validAudioBuffer buffer =
     (0 < sampleRate buffer \<and> channelData buffer \<noteq> [] \<and> 0 < bufferLength buffer \<and>
      (\<forall>c \<in> set (channelData buffer). length c = bufferLength buffer))"

text \<open>\<^verbatim>\<open>getChannelData(c)\<close> throws for a channel index out of range (\<open>None\<close>).\<close>

definition getChannelData :: "AudioBuffer \<Rightarrow> nat \<Rightarrow> real list option" where
  "getChannelData buffer c =
     (if c < numberOfChannels buffer then Some (channelData buffer ! c) else None)"

text \<open>
  \<^verbatim>\<open>createBuffer(numberOfChannels, length, sampleRate)\<close>: a buffer of zeros; it throws
  (\<open>None\<close>) when an argument is zero.
\<close>

definition createBuffer :: "nat \<Rightarrow> nat \<Rightarrow> nat \<Rightarrow> AudioBuffer option" where
  "createBuffer channels len rate =
     (if channels = 0 \<or> len = 0 \<or> rate = 0 then None
      else Some \<lparr>sampleRate = rate, channelData = replicate channels (replicate len 0)\<rparr>)"

section \<open>WAV serializer (audioBufferToWav)\<close>

type_synonym byte = "8 word"

text \<open>
  The \<^verbatim>\<open>DataView\<close> writes used by the serializer, little-endian. The value is reduced
  to the width of the field, as \<^verbatim>\<open>setUint16\<close> and \<^verbatim>\<open>setUint32\<close> do. A write past
  the end of the buffer throws in the source; the serializer allocates
  \<open>headerSize + dataSize\<close> bytes and writes the header below offset 44 and the samples
  below \<open>44 + dataSize\<close>, so that no write is out of range.
\<close>

definition setUint8 :: "nat \<Rightarrow> nat \<Rightarrow> byte list \<Rightarrow> byte list" where
  "setUint8 offset v view = view[offset := of_nat v]"

definition setUint16 :: "nat \<Rightarrow> nat \<Rightarrow> byte list \<Rightarrow> byte list" where
  "setUint16 offset v view = view[offset := of_nat v, offset + 1 := of_nat (v div 256)]"

definition setUint32 :: "nat \<Rightarrow> nat \<Rightarrow> byte list \<Rightarrow> byte list" where
  "setUint32 offset v view =
     view[offset := of_nat v, offset + 1 := of_nat (v div 256),
          offset + 2 := of_nat (v div 65536), offset + 3 := of_nat (v div 16777216)]"

text \<open>
  \<^verbatim>\<open>function writeString(view, offset, string) {
    for (let i = 0; i < string.length; i++) view.setUint8(offset + i, string.charCodeAt(i));
  }\<close>
\<close>

fun writeString :: "nat \<Rightarrow> string \<Rightarrow> byte list \<Rightarrow> byte list" where
  "writeString offset [] view = view"
| "writeString offset (c # cs) view = writeString (offset + 1) cs (setUint8 offset (of_char c) view)"

text \<open>
  Storing a number into an \<^verbatim>\<open>Int16Array\<close> element truncates it towards zero and keeps
  the low 16 bits.
\<close>

definition truncateNumber :: "real \<Rightarrow> int" where
  "truncateNumber x = (if x < 0 then - \<lfloor>- x\<rfloor> else \<lfloor>x\<rfloor>)"

definition toInt16 :: "real \<Rightarrow> 16 word" where
  "toInt16 x = word_of_int (truncateNumber x)"

text \<open>
  \<^verbatim>\<open>const s = Math.max(-1, Math.min(1, result[i]));
  samples[i] = s < 0 ? s * 0x8000 : s * 0x7FFF;\<close>
\<close>

definition pcmSample :: "real \<Rightarrow> 16 word" where
  "pcmSample x = (let s = max (- 1) (min 1 x) in toInt16 (if s < 0 then s * 32768 else s * 32767))"

text \<open>The two bytes of an \<^verbatim>\<open>Int16Array\<close> element, low byte first.\<close>

definition int16Bytes :: "16 word \<Rightarrow> byte list" where
  "int16Bytes w = [ucast w, ucast (drop_bit 8 w)]"

definition setInt16 :: "nat \<Rightarrow> 16 word \<Rightarrow> byte list \<Rightarrow> byte list" where
  "setInt16 offset w view = view[offset := int16Bytes w ! 0, offset + 1 := int16Bytes w ! 1]"

text \<open>
  The loop \<^verbatim>\<open>for (let i = 0; i < result.length; i++) samples[i] = ...\<close> over the
  \<^verbatim>\<open>Int16Array\<close> that views the buffer from byte \<open>offset\<close> on.
\<close>

fun writeSamples :: "nat \<Rightarrow> real list \<Rightarrow> byte list \<Rightarrow> byte list" where
  "writeSamples offset [] view = view"
| "writeSamples offset (x # xs) view = writeSamples (offset + 2) xs (setInt16 offset (pcmSample x) view)"

text \<open>
  \<^verbatim>\<open>result[i * 2] = left[i]; result[i * 2 + 1] = right[i];\<close> for every index of the left
  channel.
\<close>

definition interleave :: "real list \<Rightarrow> real list \<Rightarrow> real list" where
  "interleave left right = concat (map (\<lambda>i. [left ! i, right ! i]) [0..<length left])"

text \<open>The samples to be written: both channels interleaved if stereo, else channel 0.\<close>

definition wavSamples :: "AudioBuffer \<Rightarrow> real list option" where
  "wavSamples buffer =
     (if numberOfChannels buffer = 2 then
        (case getChannelData buffer 0 of
           None \<Rightarrow> None
         | Some left \<Rightarrow>
             (case getChannelData buffer 1 of
                None \<Rightarrow> None
              | Some right \<Rightarrow> Some (interleave left right)))
      else getChannelData buffer 0)"

text \<open>
  The contents of \<^verbatim>\<open>wavBuffer\<close> after the header and the samples are written: a
  zero-filled buffer of \<open>headerSize + dataSize\<close> bytes, updated in the order of the source.
\<close>

definition wavBuffer :: "nat \<Rightarrow> nat \<Rightarrow> real list \<Rightarrow> byte list" where
  "wavBuffer numChannels rate result =
     (let format = 1;
          bitDepth = 16;
          bytesPerSample = bitDepth div 8;
          blockAlign = numChannels * bytesPerSample;
          byteRate = rate * blockAlign;
          dataSize = length result * bytesPerSample;
          headerSize = 44
      in fold (\<lambda>write view. write view)
           [writeString 0 ''RIFF'',
            setUint32 4 (36 + dataSize),
            writeString 8 ''WAVE'',
            writeString 12 ''fmt '',
            setUint32 16 16,
            setUint16 20 format,
            setUint16 22 numChannels,
            setUint32 24 rate,
            setUint32 28 byteRate,
            setUint16 32 blockAlign,
            setUint16 34 bitDepth,
            writeString 36 ''data'',
            setUint32 40 dataSize,
            writeSamples headerSize result]
           (replicate (headerSize + dataSize) 0))"

text \<open>
  The binary string built chunk by chunk
  (\<^verbatim>\<open>for (let i = 0; i < len; i += chunkSize) binary += String.fromCharCode(...)\<close>).
\<close>

function binaryString :: "byte list \<Rightarrow> nat \<Rightarrow> string" where
  "binaryString bytes i =
     (if i < length bytes
      then map (\<lambda>b. char_of (unat b)) (take 8192 (drop i bytes)) @ binaryString bytes (i + 8192)
      else [])"
  by pat_completeness auto
termination
  by (relation "measure (\<lambda>(bytes, i). length bytes - i)") auto

text \<open>The platform function \<^verbatim>\<open>btoa\<close>: standard base64 with padding.\<close>

definition base64Digit :: "nat \<Rightarrow> char" where
  "base64Digit n =
     ''ABCDEFGHIJKLMNOPQRSTUVWXYZabcdefghijklmnopqrstuvwxyz0123456789+/'' ! n"

fun btoa :: "string \<Rightarrow> string" where
  "btoa (a # b # c # rest) =
     [base64Digit (of_char a div 4),
      base64Digit ((of_char a mod 4) * 16 + of_char b div 16),
      base64Digit ((of_char b mod 16) * 4 + of_char c div 64),
      base64Digit (of_char c mod 64)] @ btoa rest"
| "btoa [a, b] =
     [base64Digit (of_char a div 4),
      base64Digit ((of_char a mod 4) * 16 + of_char b div 16),
      base64Digit ((of_char b mod 16) * 4),
      CHR ''='']"
| "btoa [a] =
     [base64Digit (of_char a div 4), base64Digit ((of_char a mod 4) * 16), CHR ''='', CHR ''='']"
| "btoa [] = []"

text \<open>
  \<^verbatim>\<open>audioBufferToWav\<close>: the base64 text of the WAV bytes; \<open>None\<close> when a channel access
  throws.
\<close>

definition audioBufferToWav :: "AudioBuffer \<Rightarrow> string option" where
  "audioBufferToWav buffer =
     (case wavSamples buffer of
        None \<Rightarrow> None
      | Some result \<Rightarrow>
          Some (btoa (binaryString (wavBuffer (numberOfChannels buffer) (sampleRate buffer) result) 0)))"

text \<open>
  Reading a header back, with the \<^verbatim>\<open>DataView\<close> reads that mirror the writes
  (little-endian).
\<close>

definition getUint16 :: "nat \<Rightarrow> byte list \<Rightarrow> nat" where
  "getUint16 offset view = unat (view ! offset) + 256 * unat (view ! (offset + 1))"

definition getUint32 :: "nat \<Rightarrow> byte list \<Rightarrow> nat" where
  "getUint32 offset view =
     unat (view ! offset) + 256 * unat (view ! (offset + 1)) +
     65536 * unat (view ! (offset + 2)) + 16777216 * unat (view ! (offset + 3))"

record wav_header =
  hdrDataSize :: nat
  hdrSampleRate :: nat
  hdrChannelCount :: nat
  hdrBitDepth :: nat

definition parseWavHeader :: "byte list \<Rightarrow> wav_header" where
  "parseWavHeader view =
     \<lparr>hdrDataSize = getUint32 40 view, hdrSampleRate = getUint32 24 view,
      hdrChannelCount = getUint16 22 view, hdrBitDepth = getUint16 34 view\<rparr>"

text \<open>The bytes of an ASCII tag, and the little-endian bytes of a number.\<close>

definition asciiBytes :: "string \<Rightarrow> byte list" where
  "asciiBytes s = map (\<lambda>c. of_nat (of_char c)) s"

definition u16le :: "nat \<Rightarrow> byte list" where
  "u16le v = [of_nat v, of_nat (v div 256)]"

definition u32le :: "nat \<Rightarrow> byte list" where
  "u32le v = [of_nat v, of_nat (v div 256), of_nat (v div 65536), of_nat (v div 16777216)]"


text \<open>
  The 44-byte PCM header as the specification lays it out: \<^verbatim>\<open>RIFF\<close>, u32
  \<open>36 + dataSize\<close>, \<^verbatim>\<open>WAVE\<close>, \<^verbatim>\<open>fmt \<close>, u32 16, u16 format tag 1, u16 channel count,
  u32 sample rate, u32 byte rate \<open>sampleRate * blockAlign\<close>, u16 block align
  \<open>channels * 2\<close>, u16 bits per sample 16, \<^verbatim>\<open>data\<close>, u32 \<open>dataSize\<close>.
\<close>

definition wavHeader :: "nat \<Rightarrow> nat \<Rightarrow> nat \<Rightarrow> byte list" where
  "wavHeader numChannels rate dataSize =
     asciiBytes ''RIFF'' @ u32le (36 + dataSize) @ asciiBytes ''WAVE'' @
     asciiBytes ''fmt '' @ u32le 16 @ u16le 1 @ u16le numChannels @ u32le rate @
     u32le (rate * (numChannels * 2)) @ u16le (numChannels * 2) @ u16le 16 @
     asciiBytes ''data'' @ u32le dataSize"

section \<open>Numbers that may be NaN\<close>

text \<open>
  The result of \<^verbatim>\<open>parseInt\<close> and of arithmetic on it: a finite number or \<^verbatim>\<open>NaN\<close>.
  Arithmetic with \<^verbatim>\<open>NaN\<close> yields \<^verbatim>\<open>NaN\<close>.
\<close>

datatype number = Num real | NaN

fun plus_number :: "number \<Rightarrow> number \<Rightarrow> number" where
  "plus_number (Num a) (Num b) = Num (a + b)"
| "plus_number a b = NaN"

fun times_number :: "number \<Rightarrow> number \<Rightarrow> number" where
  "times_number (Num a) (Num b) = Num (a * b)"
| "times_number a b = NaN"

text \<open>Division by the non-zero constant \<open>d\<close>.\<close>

fun divide_number :: "number \<Rightarrow> real \<Rightarrow> number" where
  "divide_number (Num a) d = Num (a / d)"
| "divide_number NaN d = NaN"

section \<open>Strings\<close>

text \<open>
  White space as \<^verbatim>\<open>String.prototype.trim\<close> and the regular-expression class \<^verbatim>\<open>\s\<close>
  see it, for code units below 256: tab, line feed, vertical tab, form feed, carriage
  return, space and no-break space.
\<close>

definition isSpace :: "char \<Rightarrow> bool" where
  "isSpace c = (of_char c \<in> {9, 10, 11, 12, 13, 32, 160 :: nat})"

text \<open>The regular-expression class \<^verbatim>\<open>\d\<close>.\<close>

definition isDigit :: "char \<Rightarrow> bool" where
  "isDigit c = (48 \<le> (of_char c :: nat) \<and> (of_char c :: nat) \<le> 57)"

definition digitValue :: "char \<Rightarrow> nat" where
  "digitValue c = of_char c - 48"

definition trim :: "string \<Rightarrow> string" where
  "trim s = rev (dropWhile isSpace (rev (dropWhile isSpace s)))"

text \<open>
  \<^verbatim>\<open>String.prototype.split(separator)\<close> for a non-empty separator string: the pieces
  between the non-overlapping occurrences of the separator, found from left to right.
  \<open>current\<close> is the piece being read.
\<close>

function splitFrom :: "string \<Rightarrow> string \<Rightarrow> string \<Rightarrow> string list" where
  "splitFrom separator current [] = [current]"
| "splitFrom separator current (c # cs) =
     (if separator \<noteq> [] \<and> prefix separator (c # cs)
      then current # splitFrom separator [] (drop (length separator) (c # cs))
      else splitFrom separator (current @ [c]) cs)"
  by pat_completeness auto
termination
  by (relation "measure (\<lambda>(separator, current, s). length s)") auto

definition split :: "string \<Rightarrow> string \<Rightarrow> string list" where
  "split separator s = splitFrom separator [] s"

text \<open>\<^verbatim>\<open>split\<close> with a regular expression that is a class of single characters.\<close>

fun splitClassFrom :: "(char \<Rightarrow> bool) \<Rightarrow> string \<Rightarrow> string \<Rightarrow> string list" where
  "splitClassFrom sep current [] = [current]"
| "splitClassFrom sep current (c # cs) =
     (if sep c then current # splitClassFrom sep [] cs
      else splitClassFrom sep (current @ [c]) cs)"

definition splitClass :: "(char \<Rightarrow> bool) \<Rightarrow> string \<Rightarrow> string list" where
  "splitClass sep s = splitClassFrom sep [] s"

text \<open>\<^verbatim>\<open>Array.prototype.join(separator)\<close>\<close>

fun join :: "string \<Rightarrow> string list \<Rightarrow> string" where
  "join separator [] = []"
| "join separator [x] = x"
| "join separator (x # y # ys) = x @ separator @ join separator (y # ys)"

text \<open>
  \<^verbatim>\<open>parseInt(string, 10)\<close>: leading white space is skipped, a sign is accepted, the
  longest run of decimal digits is read; without a digit the result is \<^verbatim>\<open>NaN\<close>.
\<close>

definition decimalValue :: "string \<Rightarrow> nat" where
  "decimalValue ds = foldl (\<lambda>n c. 10 * n + digitValue c) 0 ds"

definition parseInt :: "string \<Rightarrow> number" where
  "parseInt str =
     (let s = dropWhile isSpace str;
          negative = (s \<noteq> [] \<and> hd s = CHR ''-'');
          signed = (s \<noteq> [] \<and> (hd s = CHR ''-'' \<or> hd s = CHR ''+''));
          digits = takeWhile isDigit (if signed then tl s else s)
      in if digits = [] then NaN
         else Num (if negative then - real (decimalValue digits) else real (decimalValue digits)))"

section \<open>SRT parser (parseSrt)\<close>

datatype position = Top | Middle | Bottom

record Subtitle =
  text' :: string
  start :: number
  end' :: number
  fontSize :: "real option"
  position :: "position option"

text \<open>
  \<^verbatim>\<open>const parts = time.split(/[:,\.]/);
  if (parts.length < 3) return 0;
  const h = parseInt(parts[0], 10); const m = parseInt(parts[1], 10);
  const s = parseInt(parts[2], 10); const ms = parts[3] ? parseInt(parts[3], 10) : 0;
  return h * 3600 + m * 60 + s + ms / 1000;\<close>
\<close>

definition isTimeSeparator :: "char \<Rightarrow> bool" where
  "isTimeSeparator c = (c = CHR '':'' \<or> c = CHR '','' \<or> c = CHR ''.'')"

definition timeToSeconds :: "string \<Rightarrow> number" where
  "timeToSeconds time =
     (let parts = splitClass isTimeSeparator time
      in if length parts < 3 then Num 0
         else
           (let h = parseInt (parts ! 0);
                m = parseInt (parts ! 1);
                s = parseInt (parts ! 2);
                ms = (if 3 < length parts \<and> parts ! 3 \<noteq> [] then parseInt (parts ! 3) else Num 0)
            in plus_number
                 (plus_number (plus_number (times_number h (Num 3600)) (times_number m (Num 60))) s)
                 (divide_number ms 1000)))"

text \<open>
  The group \<^verbatim>\<open>(\d{2}:\d{2}:\d{2}[,.]\d{3})\<close> matched at the start of a string: the
  matched text and the rest of the string.
\<close>

fun matchTimestamp :: "string \<Rightarrow> (string \<times> string) option" where
  "matchTimestamp (h1 # h2 # c1 # m1 # m2 # c2 # s1 # s2 # sep # f1 # f2 # f3 # rest) =
     (if isDigit h1 \<and> isDigit h2 \<and> c1 = CHR '':'' \<and> isDigit m1 \<and> isDigit m2 \<and> c2 = CHR '':'' \<and>
         isDigit s1 \<and> isDigit s2 \<and> (sep = CHR '','' \<or> sep = CHR ''.'') \<and>
         isDigit f1 \<and> isDigit f2 \<and> isDigit f3
      then Some ([h1, h2, c1, m1, m2, c2, s1, s2, sep, f1, f2, f3], rest)
      else None)"
| "matchTimestamp s = None"

text \<open>
  The whole expression
  \<^verbatim>\<open>/(\d{2}:\d{2}:\d{2}[,.]\d{3})\s*-->\s*(\d{2}:\d{2}:\d{2}[,.]\d{3})/\<close> matched at the
  start of a string. Each \<^verbatim>\<open>\s*\<close> is followed by a character that is not white
  space, so the greedy repetition never backtracks.
\<close>

definition matchTimeLineAt :: "string \<Rightarrow> (string \<times> string) option" where
  "matchTimeLineAt s =
     (case matchTimestamp s of
        None \<Rightarrow> None
      | Some (first, rest) \<Rightarrow>
          (let afterSpace = dropWhile isSpace rest
           in if prefix ''-->'' afterSpace
              then (case matchTimestamp (dropWhile isSpace (drop 3 afterSpace)) of
                      None \<Rightarrow> None
                    | Some (second, rest') \<Rightarrow> Some (first, second))
              else None))"

text \<open>\<^verbatim>\<open>line.match(regex)\<close>: the leftmost position at which the expression matches.\<close>

fun timeMatch :: "string \<Rightarrow> (string \<times> string) option" where
  "timeMatch [] = None"
| "timeMatch (c # cs) =
     (case matchTimeLineAt (c # cs) of
        Some groups \<Rightarrow> Some groups
      | None \<Rightarrow> timeMatch cs)"

text \<open>The body of the loop \<^verbatim>\<open>for (const block of blocks)\<close>, on the captions so far.\<close>

definition parseBlock :: "string \<Rightarrow> Subtitle list \<Rightarrow> Subtitle list" where
  "parseBlock block subtitles =
     (if trim block = [] then subtitles
      else
        (let lines = split [CHR 0x0A] block
         in if 3 \<le> length lines then
              (case timeMatch (lines ! 1) of
                 None \<Rightarrow> subtitles
               | Some (first, second) \<Rightarrow>
                   (let start = timeToSeconds first;
                        end = timeToSeconds second;
                        text = trim (join '' '' (drop 2 lines))
                    in if text \<noteq> []
                       then subtitles @
                              [\<lparr>text' = text, start = start, end' = end,
                                fontSize = None, position = None\<rparr>]
                       else subtitles))
            else subtitles))"

text \<open>\<^verbatim>\<open>const blocks = srtText.replace(/\r/g, '').split('\n\n');\<close>\<close>

definition srtBlocks :: "string \<Rightarrow> string list" where
  "srtBlocks srtText = split [CHR 0x0A, CHR 0x0A] (filter (\<lambda>c. c \<noteq> CHR 0x0D) srtText)"

definition parseSrt :: "string \<Rightarrow> Subtitle list" where
  "parseSrt srtText = fold parseBlock (srtBlocks srtText) []"


text \<open>
  A timestamp in the words of the specification: the text \<^verbatim>\<open>HH:MM:SS,mmm\<close> or
  \<^verbatim>\<open>HH:MM:SS.mmm\<close>, and its value \<open>h * 3600 + m * 60 + s + ms / 1000\<close> in seconds.
\<close>

definition isTimestamp :: "string \<Rightarrow> bool" where
  "isTimestamp t = (matchTimestamp t = Some (t, []))"

definition timestampSeconds :: "string \<Rightarrow> real" where
  "timestampSeconds t =
     real (decimalValue (take 2 t)) * 3600 + real (decimalValue (take 2 (drop 3 t))) * 60 +
     real (decimalValue (take 2 (drop 6 t))) + real (decimalValue (take 3 (drop 9 t))) / 1000"

text \<open>
  The invariants of a caption list in the words of the data model: every caption starts
  before it ends, and the list is ordered by start time. A comparison with \<^verbatim>\<open>NaN\<close> is
  false.
\<close>

fun number_less :: "number \<Rightarrow> number \<Rightarrow> bool" where
  "number_less (Num a) (Num b) = (a < b)"
| "number_less a b = False"

fun number_le :: "number \<Rightarrow> number \<Rightarrow> bool" where
  "number_le (Num a) (Num b) = (a \<le> b)"
| "number_le a b = False"

definition startsBeforeEnd :: "Subtitle \<Rightarrow> bool" where
  "startsBeforeEnd c = number_less (start c) (end' c)"

definition orderedByStart :: "Subtitle list \<Rightarrow> bool" where
  "orderedByStart cs = sorted_wrt (\<lambda>a b. number_le (start a) (start b)) cs"

text \<open>The example of the specification.\<close>

definition demoSrt :: string where
  "demoSrt = ''1\<newline>00:00:01,000 --> 00:00:02,500\<newline>Hello world\<newline>\<newline>''"

text \<open>
  A file whose first block has a timestamp line without milliseconds and whose second
  block uses a dot and a comma as separators.
\<close>

definition brokenSrt :: string where
  "brokenSrt =
     ''1\<newline>00:00:01 --> 00:00:02\<newline>lost\<newline>\<newline>2\<newline>00:00:03.000 --> 00:00:04,250\<newline>kept''"

text \<open>
  A file whose first caption ends before it starts and whose second caption starts
  before the first.
\<close>

definition unorderedSrt :: string where
  "unorderedSrt =
     ''1\<newline>00:00:05,000 --> 00:00:02,000\<newline>late\<newline>\<newline>2\<newline>00:00:01,000 --> 00:00:03,000\<newline>early''"

section \<open>Floating-point rounding\<close>

text \<open>
  Rounding to nearest, ties to even, of a real number to a binary floating-point format
  with \<open>precision\<close> significant bits and least exponent \<open>minExponent\<close> (below which
  the numbers are subnormal). The numbers of the format are the integer multiples of
  the \<open>quantum\<close> of their binade. Overflow to infinity is outside the model: the
  values rounded here are sums and means of at most a few float32 samples.
\<close>

definition roundHalfEven :: "real \<Rightarrow> int" where
  "roundHalfEven y =
     (let f = \<lfloor>y\<rfloor>
      in if y - of_int f < 1 / 2 then f
         else if 1 / 2 < y - of_int f then f + 1
         else if even f then f else f + 1)"

definition binaryExponent :: "real \<Rightarrow> int" where
  "binaryExponent x = \<lfloor>log 2 \<bar>x\<bar>\<rfloor>"

definition quantum :: "nat \<Rightarrow> int \<Rightarrow> real \<Rightarrow> real" where
  "quantum precision minExponent x =
     2 powi (max (binaryExponent x) minExponent - int precision + 1)"

definition roundToFormat :: "nat \<Rightarrow> int \<Rightarrow> real \<Rightarrow> real" where
  "roundToFormat precision minExponent x =
     (if x = 0 then 0
      else of_int (roundHalfEven (x / quantum precision minExponent x))
             * quantum precision minExponent x)"

text \<open>The result of an arithmetic operation on JavaScript numbers (IEEE binary64).\<close>

definition toDouble :: "real \<Rightarrow> real" where
  "toDouble x = roundToFormat 53 (- 1022) x"

text \<open>The value kept by a store into a \<^verbatim>\<open>Float32Array\<close> element (IEEE binary32).\<close>

definition toFloat32 :: "real \<Rightarrow> real" where
  "toFloat32 x = roundToFormat 24 (- 126) x"

section \<open>Audio extraction (extractAudioFromVideo)\<close>

definition MAX_DURATION :: nat where
  "MAX_DURATION = 120"

text \<open>
  The inner loop \<^verbatim>\<open>for (let c = 0; c < channels; c++) sum += audioBuffer.getChannelData(c)[i]\<close>,
  started with \<^verbatim>\<open>sum = 0\<close>.
\<close>

definition channelSum :: "AudioBuffer \<Rightarrow> nat \<Rightarrow> nat \<Rightarrow> real" where
  "channelSum audioBuffer channels i =
     foldl (\<lambda>sum c. toDouble (sum + channelData audioBuffer ! c ! i)) 0 [0..<channels]"

text \<open>
  The down-mix: with more than one channel, a new one-channel buffer whose sample \<open>i\<close>
  is \<^verbatim>\<open>sum / channels\<close>, computed as a double and stored into the \<^verbatim>\<open>Float32Array\<close> of
  the new buffer (\<^verbatim>\<open>outputData[i] = sum / channels\<close>); otherwise the decoded buffer
  itself.
\<close>

definition mixToMono :: "AudioBuffer \<Rightarrow> AudioBuffer option" where
  "mixToMono audioBuffer =
     (if 1 < numberOfChannels audioBuffer then
        (let channels = numberOfChannels audioBuffer;
             len = bufferLength audioBuffer
         in case createBuffer 1 len (sampleRate audioBuffer) of
              None \<Rightarrow> None
            | Some newBuffer \<Rightarrow>
                Some (newBuffer\<lparr>channelData :=
                  [map (\<lambda>i. toFloat32 (toDouble (channelSum audioBuffer channels i / real channels)))
                     [0..<len]]\<rparr>))
      else Some audioBuffer)"

text \<open>
  \<^verbatim>\<open>copyToChannel(source, channelNumber)\<close>: the source overwrites the start of the
  channel, as far as the channel reaches.
\<close>

definition copyToChannel :: "real list \<Rightarrow> nat \<Rightarrow> AudioBuffer \<Rightarrow> AudioBuffer" where
  "copyToChannel source channelNumber buffer =
     buffer\<lparr>channelData := (channelData buffer)
       [channelNumber :=
          (let destination = channelData buffer ! channelNumber
           in take (length destination) source @ drop (length source) destination)]\<rparr>"

text \<open>
  \<^verbatim>\<open>if (monoBuffer.duration > MAX_DURATION) {
      const truncatedLength = MAX_DURATION * monoBuffer.sampleRate;
      const truncatedBuffer = audioContext.createBuffer(1, truncatedLength, monoBuffer.sampleRate);
      truncatedBuffer.copyToChannel(monoBuffer.getChannelData(0).slice(0, truncatedLength), 0);
      monoBuffer = truncatedBuffer;
  }\<close>
\<close>

definition truncateToMax :: "AudioBuffer \<Rightarrow> AudioBuffer option" where
  "truncateToMax monoBuffer =
     (if bufferDuration monoBuffer > real MAX_DURATION then
        (let truncatedLength = MAX_DURATION * sampleRate monoBuffer
         in case createBuffer 1 truncatedLength (sampleRate monoBuffer) of
              None \<Rightarrow> None
            | Some truncatedBuffer \<Rightarrow>
                (case getChannelData monoBuffer 0 of
                   None \<Rightarrow> None
                 | Some samples \<Rightarrow>
                     Some (copyToChannel (take truncatedLength samples) 0 truncatedBuffer)))
      else Some monoBuffer)"

text \<open>
  The arithmetic mean of the samples \<open>i\<close> of all channels, and the condition under
  which computing it rounds nothing: every partial sum and the mean are doubles, and the
  mean is a float32.
\<close>

definition channelMean :: "AudioBuffer \<Rightarrow> nat \<Rightarrow> real" where
  "channelMean audioBuffer i =
     (\<Sum>c<numberOfChannels audioBuffer. channelData audioBuffer ! c ! i)
       / real (numberOfChannels audioBuffer)"

definition unrounded :: "AudioBuffer \<Rightarrow> nat \<Rightarrow> bool" where
  "unrounded audioBuffer i =
     ((\<forall>k \<le> numberOfChannels audioBuffer.
         toDouble (\<Sum>c<k. channelData audioBuffer ! c ! i) =
           (\<Sum>c<k. channelData audioBuffer ! c ! i)) \<and>
      toDouble (channelMean audioBuffer i) = channelMean audioBuffer i \<and>
      toFloat32 (channelMean audioBuffer i) = channelMean audioBuffer i)"

text \<open>The buffer handed to the serializer: down-mixed, then truncated.\<close>

definition normalizedAudio :: "AudioBuffer \<Rightarrow> AudioBuffer option" where
  "normalizedAudio audioBuffer =
     (case mixToMono audioBuffer of
        None \<Rightarrow> None
      | Some monoBuffer \<Rightarrow> truncateToMax monoBuffer)"

text \<open>
  \<^verbatim>\<open>extractAudioFromVideo\<close>. The argument is the outcome of creating the audio context,
  reading the file and \<^verbatim>\<open>decodeAudioData\<close>: \<open>None\<close> when one of them throws. Everything
  is inside \<^verbatim>\<open>try { ... } catch (e) { return null; }\<close>, so every failure is the result
  \<open>None\<close> (\<^verbatim>\<open>null\<close>).
\<close>

definition extractAudioFromVideo :: "AudioBuffer option \<Rightarrow> string option" where
  "extractAudioFromVideo decoded =
     (case decoded of
        None \<Rightarrow> None
      | Some audioBuffer \<Rightarrow>
          (case normalizedAudio audioBuffer of
             None \<Rightarrow> None
           | Some monoBuffer \<Rightarrow> audioBufferToWav monoBuffer))"

section \<open>Analysis response (handleSubmit)\<close>

text \<open>The values \<^verbatim>\<open>JSON.parse\<close> can return.\<close>

datatype json = JNull | JBool bool | JNumber real | JString string | JArray "json list"
  | JObject "(string \<times> json) list"

text \<open>
  Reading the property \<open>key\<close> of a value other than \<^verbatim>\<open>null\<close>: \<open>None\<close> is
  \<^verbatim>\<open>undefined\<close>. Only objects have the properties read here.
\<close>

fun getProperty :: "json \<Rightarrow> string \<Rightarrow> json option" where
  "getProperty (JObject members) key = map_of members key"
| "getProperty v key = None"

text \<open>
  The captions of an analysis result: parsed from the subtitle file, or the array of the
  response as it came (\<^verbatim>\<open>finalResult = partialResult as ClipAnalysis\<close> converts nothing).
\<close>

datatype subtitle_source = FromSrt "Subtitle list" | FromAnalysis "json list"

record ClipAnalysis =
  startTime :: real
  endTime :: real
  subtitles :: subtitle_source

text \<open>
  The message of an error: one of the two sentences thrown by \<^verbatim>\<open>handleSubmit\<close> itself
  (Persian text without Latin letters or digits), or any other text.
\<close>

datatype error_message = InvalidTimingMessage | InvalidStructureMessage | Literal string

text \<open>
  What the \<^verbatim>\<open>catch\<close> clause can receive: a \<^verbatim>\<open>SyntaxError\<close>, the \<^verbatim>\<open>TypeError\<close> of
  reading a property of \<^verbatim>\<open>null\<close> with the message that the JavaScript engine gives
  it, or another error with its message.
\<close>

datatype exception = SyntaxError | TypeError string | OtherError error_message

text \<open>A string option is truthy when it is present and not empty.\<close>

definition truthy :: "string option \<Rightarrow> bool" where
  "truthy s = (case s of None \<Rightarrow> False | Some t \<Rightarrow> t \<noteq> [])"

text \<open>
  The validation of the parsed response and the construction of \<^verbatim>\<open>finalResult\<close>.
  \<^verbatim>\<open>typeof x !== 'number'\<close> holds for everything but a number; reading a property of
  \<^verbatim>\<open>null\<close> throws a \<^verbatim>\<open>TypeError\<close>, whose message \<open>nullReadMessage\<close> depends on the
  engine and is a parameter.
\<close>

definition buildClipAnalysis ::
  "string \<Rightarrow> string option \<Rightarrow> json \<Rightarrow> exception + ClipAnalysis" where
  "buildClipAnalysis nullReadMessage srtContent partialResult =
     (if partialResult = JNull then Inl (TypeError nullReadMessage)
      else if truthy srtContent then
        (case (getProperty partialResult ''startTime'', getProperty partialResult ''endTime'') of
           (Some (JNumber s), Some (JNumber e)) \<Rightarrow>
             Inr \<lparr>startTime = s, endTime = e, subtitles = FromSrt (parseSrt (the srtContent))\<rparr>
         | _ \<Rightarrow> Inl (OtherError InvalidTimingMessage))
      else
        (case (getProperty partialResult ''startTime'', getProperty partialResult ''endTime'',
               getProperty partialResult ''subtitles'') of
           (Some (JNumber s), Some (JNumber e), Some (JArray subs)) \<Rightarrow>
             Inr \<lparr>startTime = s, endTime = e, subtitles = FromAnalysis subs\<rparr>
         | _ \<Rightarrow> Inl (OtherError InvalidStructureMessage)))"




text \<open>A response whose clip window ends before it starts.\<close>

definition reversedResponse :: json where
  "reversedResponse =
     JObject [(''startTime'', JNumber 20), (''endTime'', JNumber 10), (''subtitles'', JArray [])]"

section \<open>Component state and handlers (ShortsCreator)\<close>

record js_file =
  fileName :: string
  fileText :: string

type_synonym url = string

text \<open>The sentences shown to the user, one constructor each.\<close>

datatype notice = VideoTooShort | VideoLoadFailed | InvalidJsonResponse | PayloadTooLarge
  | ServerInternalError | UnknownAnalysisError | ErrorText error_message

text \<open>
  The React state of the component that the handlers below read or write, and the list
  of object URLs released with \<^verbatim>\<open>URL.revokeObjectURL\<close>.
\<close>

record app_state =
  videoFile :: "js_file option"
  srtFile :: "js_file option"
  isLoading :: bool
  isRendering :: bool
  error :: "notice option"
  analysisResult :: "ClipAnalysis option"
  videoPreviewUrl :: "url option"
  activeSubtitle :: "Subtitle option"
  useDynamicStyling :: bool
  revokedUrls :: "url list"

datatype metadata_event = LoadedMetadata media_duration | MetadataError

text \<open>
  \<^verbatim>\<open>handleFileChange\<close>: the selection is reset first; for a chosen file with object URL
  \<open>videoUrl\<close> the handler of \<^verbatim>\<open>loadedmetadata\<close> or of \<^verbatim>\<open>error\<close> then runs.
\<close>

definition resetSelection :: "app_state \<Rightarrow> app_state" where
  "resetSelection st =
     st\<lparr>videoFile := None, videoPreviewUrl := None, analysisResult := None, error := None,
        activeSubtitle := None, srtFile := None\<rparr>"

definition onloadedmetadata :: "js_file \<Rightarrow> url \<Rightarrow> media_duration \<Rightarrow> app_state \<Rightarrow> app_state" where
  "onloadedmetadata file videoUrl duration st =
     (if duration_less duration 30
      then st\<lparr>error := Some VideoTooShort, revokedUrls := revokedUrls st @ [videoUrl]\<rparr>
      else st\<lparr>videoFile := Some file, videoPreviewUrl := Some videoUrl\<rparr>)"

definition onerror :: "url \<Rightarrow> app_state \<Rightarrow> app_state" where
  "onerror videoUrl st =
     st\<lparr>error := Some VideoLoadFailed, revokedUrls := revokedUrls st @ [videoUrl]\<rparr>"

definition handleFileChange ::
  "js_file option \<Rightarrow> url \<Rightarrow> metadata_event \<Rightarrow> app_state \<Rightarrow> app_state" where
  "handleFileChange file videoUrl event st =
     (case file of
        None \<Rightarrow> resetSelection st
      | Some f \<Rightarrow>
          (case event of
             LoadedMetadata duration \<Rightarrow> onloadedmetadata f videoUrl duration (resetSelection st)
           | MetadataError \<Rightarrow> onerror videoUrl (resetSelection st)))"

text \<open>
  The guards at the top of the two handlers that start work on the selected source:
  \<^verbatim>\<open>if (!videoFile || isLoading) return;\<close> in \<^verbatim>\<open>handleSubmit\<close> and
  \<^verbatim>\<open>if (!videoFile || !analysisResult || isRendering) return;\<close> in \<^verbatim>\<open>handleDownload\<close>.
\<close>

definition submitStarts :: "app_state \<Rightarrow> bool" where
  "submitStarts st = (\<not> (videoFile st = None \<or> isLoading st))"

definition downloadStarts :: "app_state \<Rightarrow> bool" where
  "downloadStarts st = (\<not> (videoFile st = None \<or> analysisResult st = None \<or> isRendering st))"

definition FRAME_COUNT :: nat where
  "FRAME_COUNT = 10"

text \<open>
  What \<^verbatim>\<open>handleSubmit\<close> depends on outside the component: the outcome of decoding the
  audio of a file, the video element opened on a file, the analysis service,
  \<^verbatim>\<open>JSON.parse\<close> (\<open>None\<close> for a \<^verbatim>\<open>SyntaxError\<close>), and the message that the engine
  gives to the \<^verbatim>\<open>TypeError\<close> of reading a property of \<^verbatim>\<open>null\<close>.
\<close>

record analysis_env =
  decodeAudioData :: "js_file \<Rightarrow> AudioBuffer option"
  openVideo :: "js_file \<Rightarrow> video_source"
  analyzeVideoForClipping ::
    "inline_data list \<Rightarrow> inline_data option \<Rightarrow> string option \<Rightarrow> bool \<Rightarrow> exception + string"
  JSON_parse :: "string \<Rightarrow> json option"
  nullReadMessage :: string

text \<open>
  \<^verbatim>\<open>const audioData = audioWavBase64 ? { inlineData: { data: audioWavBase64, mimeType:
  'audio/wav' } } : null;\<close>
\<close>

definition audioDataOf :: "string option \<Rightarrow> inline_data option" where
  "audioDataOf audioWavBase64 =
     (if truthy audioWavBase64
      then Some \<lparr>data = the audioWavBase64, mimeType = ''audio/wav''\<rparr>
      else None)"

text \<open>
  The preparation of the analysis inputs: audio first (never throws), then the frames
  (a rejection is thrown on).
\<close>

definition prepareInputs ::
  "analysis_env \<Rightarrow> js_file \<Rightarrow> exception + (inline_data list \<times> inline_data option)" where
  "prepareInputs env file =
     (let audioWavBase64 = extractAudioFromVideo (decodeAudioData env file);
          audioData = audioDataOf audioWavBase64
      in case fst (extractVideoFrames (openVideo env file) FRAME_COUNT) of
           Inl message \<Rightarrow> Inl (OtherError (Literal message))
         | Inr frames \<Rightarrow> Inr (frames, audioData))"

text \<open>
  The second half of the \<^verbatim>\<open>try\<close> block of \<^verbatim>\<open>handleSubmit\<close>: the call of the
  analysis service with the prepared inputs, \<^verbatim>\<open>JSON.parse\<close>, and the validation.
\<close>

definition requestAnalysis ::
  "analysis_env \<Rightarrow> app_state \<Rightarrow> inline_data list \<Rightarrow> inline_data option
     \<Rightarrow> exception + ClipAnalysis" where
  "requestAnalysis env st frames audioData =
     (let srtContent = map_option fileText (srtFile st)
      in case analyzeVideoForClipping env frames audioData srtContent
                (useDynamicStyling st \<and> \<not> truthy srtContent) of
           Inl err \<Rightarrow> Inl err
         | Inr resultText \<Rightarrow>
             (case JSON_parse env resultText of
                None \<Rightarrow> Inl SyntaxError
              | Some partialResult \<Rightarrow>
                  buildClipAnalysis (nullReadMessage env) srtContent partialResult))"

text \<open>The body of the \<^verbatim>\<open>try\<close> block of \<^verbatim>\<open>handleSubmit\<close>.\<close>

definition tryAnalysis :: "analysis_env \<Rightarrow> app_state \<Rightarrow> js_file \<Rightarrow> exception + ClipAnalysis" where
  "tryAnalysis env st file =
     (case prepareInputs env file of
        Inl err \<Rightarrow> Inl err
      | Inr (frames, audioData) \<Rightarrow> requestAnalysis env st frames audioData)"

text \<open>\<^verbatim>\<open>String.prototype.includes\<close> and \<^verbatim>\<open>toLowerCase\<close> (on Latin letters).\<close>

fun stringIncludes :: "string \<Rightarrow> string \<Rightarrow> bool" where
  "stringIncludes [] needle = (needle = [])"
| "stringIncludes (c # cs) needle = (prefix needle (c # cs) \<or> stringIncludes cs needle)"

definition toLowerCase :: "string \<Rightarrow> string" where
  "toLowerCase s =
     map (\<lambda>c. if 65 \<le> (of_char c :: nat) \<and> (of_char c :: nat) \<le> 90
               then char_of ((of_char c :: nat) + 32) else c) s"

text \<open>The text of a message, as far as the tests of the \<^verbatim>\<open>catch\<close> clause can see it.\<close>

fun latinText :: "error_message \<Rightarrow> string" where
  "latinText (Literal m) = m"
| "latinText InvalidTimingMessage = []"
| "latinText InvalidStructureMessage = []"

fun emptyMessage :: "error_message \<Rightarrow> bool" where
  "emptyMessage (Literal m) = (m = [])"
| "emptyMessage InvalidTimingMessage = False"
| "emptyMessage InvalidStructureMessage = False"

text \<open>
  The tests of the \<^verbatim>\<open>catch\<close> clause of \<^verbatim>\<open>handleSubmit\<close> on \<^verbatim>\<open>err.message\<close>: the
  sentence passed to \<^verbatim>\<open>setError\<close> for an error that is not a \<^verbatim>\<open>SyntaxError\<close>.
\<close>

definition reportMessage :: "error_message \<Rightarrow> notice" where
  "reportMessage message =
     (if stringIncludes (latinText message) ''Rpc failed'' \<or>
         stringIncludes (latinText message) ''xhr error'' \<or>
         stringIncludes (latinText message) ''400''
      then PayloadTooLarge
      else if stringIncludes (latinText message) ''500'' \<or>
              stringIncludes (toLowerCase (latinText message)) ''internal error''
      then ServerInternalError
      else if emptyMessage message then UnknownAnalysisError
      else ErrorText message)"

text \<open>The \<^verbatim>\<open>catch\<close> clause of \<^verbatim>\<open>handleSubmit\<close>: the sentence passed to \<^verbatim>\<open>setError\<close>.\<close>

fun reportError :: "exception \<Rightarrow> notice" where
  "reportError SyntaxError = InvalidJsonResponse"
| "reportError (TypeError message) = reportMessage (Literal message)"
| "reportError (OtherError message) = reportMessage message"

definition handleSubmit :: "analysis_env \<Rightarrow> app_state \<Rightarrow> app_state" where
  "handleSubmit env st =
     (case videoFile st of
        None \<Rightarrow> st
      | Some file \<Rightarrow>
          if isLoading st then st
          else
            (case tryAnalysis env st file of
               Inl err \<Rightarrow>
                 st\<lparr>isLoading := False, error := Some (reportError err), analysisResult := None\<rparr>
             | Inr finalResult \<Rightarrow>
                 st\<lparr>isLoading := False, error := None, analysisResult := Some finalResult\<rparr>))"


text \<open>
  The function \<^verbatim>\<open>render\<close> that \<^verbatim>\<open>handleDownload\<close> creates, as far as the opacity of
  the frame goes. It is a closure over the state with which \<^verbatim>\<open>handleDownload\<close> runs:
  it reads \<^verbatim>\<open>isRendering\<close> and \<^verbatim>\<open>analysisResult\<close> of that state. The result is the value
  assigned to \<^verbatim>\<open>ctx.globalAlpha\<close> for the frame, or \<open>None\<close> when \<^verbatim>\<open>render\<close> returns
  before it draws:
  \<^verbatim>\<open>if (!videoElement || !ctx || !isRendering) return;
  const currentTimeInClip = currentTime - analysisResult.startTime;
  if (currentTimeInClip >= clipDuration || videoElement.ended) { ...; return; }\<close>
  (the video element and the canvas context exist when \<^verbatim>\<open>render\<close> is created; with no
  analysis result \<^verbatim>\<open>handleDownload\<close> returns before it creates \<^verbatim>\<open>render\<close>).
\<close>

definition render :: "app_state \<Rightarrow> bool \<Rightarrow> bool \<Rightarrow> real \<Rightarrow> real option" where
  "render captured useFadeTransition ended currentTime =
     (case analysisResult captured of
        None \<Rightarrow> None
      | Some analysis \<Rightarrow>
          if \<not> isRendering captured then None
          else
            (let currentTimeInClip = currentTime - startTime analysis;
                 clipDuration = endTime analysis - startTime analysis
             in if currentTimeInClip \<ge> clipDuration \<or> ended then None
                else Some (globalAlpha (frameAlpha useFadeTransition currentTimeInClip clipDuration))))"

section \<open>Concrete inputs\<close>

text \<open>The state of the component when it is mounted.\<close>

definition initialState :: app_state where
  "initialState =
     \<lparr>videoFile = None, srtFile = None, isLoading = False, isRendering = False, error = None,
      analysisResult = None, videoPreviewUrl = None, activeSubtitle = None,
      useDynamicStyling = True, revokedUrls = []\<rparr>"

text \<open>The state after a file of sufficient length has been selected.\<close>

definition readyState :: app_state where
  "readyState =
     \<lparr>videoFile = Some \<lparr>fileName = ''talk.mp4'', fileText = []\<rparr>, srtFile = None,
      isLoading = False, isRendering = False, error = None, analysisResult = None,
      videoPreviewUrl = Some ''blob:1'', activeSubtitle = None, useDynamicStyling = True,
      revokedUrls = []\<rparr>"

definition demoFile :: js_file where
  "demoFile = \<lparr>fileName = ''talk.mp4'', fileText = []\<rparr>"

text \<open>
  An environment in which the audio of every file fails to decode, every file opens as
  \<open>demoVideo\<close>, and the analysis service answers with \<open>reversedResponse\<close>.
\<close>

definition silentAnalyze ::
  "inline_data list \<Rightarrow> inline_data option \<Rightarrow> string option \<Rightarrow> bool \<Rightarrow> exception + string" where
  "silentAnalyze frames audioData srtContent dynamicStyling =
     (if audioData = None then Inr ''video-only'' else Inr ''with-audio'')"

definition silentParse :: "string \<Rightarrow> json option" where
  "silentParse resultText = (if resultText = ''video-only'' then Some reversedResponse else None)"

definition undecodable :: "js_file \<Rightarrow> AudioBuffer option" where
  "undecodable file = None"

definition opensDemoVideo :: "js_file \<Rightarrow> video_source" where
  "opensDemoVideo file = demoVideo"

text \<open>A video element that fires \<^verbatim>\<open>error\<close> with a decode error.\<close>

definition brokenVideo :: video_source where
  "brokenVideo = demoVideo\<lparr>loadEvent := ErrorEvent (Some MediaErrDecode)\<rparr>"

definition opensBrokenVideo :: "js_file \<Rightarrow> video_source" where
  "opensBrokenVideo file = brokenVideo"

text \<open>One second of stereo audio at 4 Hz, and three mono samples at 16 kHz.\<close>

definition stereoBuffer :: AudioBuffer where
  "stereoBuffer = \<lparr>sampleRate = 4, channelData = [[1, 0, 1 / 2, - 1], [0, 0, 1 / 4, - 1]]\<rparr>"

definition monoBuffer3 :: AudioBuffer where
  "monoBuffer3 = \<lparr>sampleRate = 16000, channelData = [[1 / 2, - 1, 2]]\<rparr>"

text \<open>Mono audio at 1 Hz that lasts 121 seconds.\<close>

definition longBuffer :: AudioBuffer where
  "longBuffer = \<lparr>sampleRate = 1, channelData = [replicate 121 (1 / 2)]\<rparr>"

text \<open>
  The message that V8 gives the \<^verbatim>\<open>TypeError\<close> of the failed property read (the
  property name is between apostrophes, character \<open>0x27\<close>).
\<close>

definition engineMessage :: string where
  "engineMessage =
     ''Cannot read properties of null (reading '' @ [CHR 0x27] @ ''startTime'' @ [CHR 0x27] @ '')''"

definition silentEnv :: analysis_env where
  "silentEnv =
     \<lparr>decodeAudioData = undecodable, openVideo = opensDemoVideo,
      analyzeVideoForClipping = silentAnalyze, JSON_parse = silentParse,
      nullReadMessage = engineMessage\<rparr>"

definition brokenEnv :: analysis_env where
  "brokenEnv = silentEnv\<lparr>openVideo := opensBrokenVideo\<rparr>"

text \<open>
  A stereo buffer of one sample frame whose two samples are float32 numbers with a mean
  that is not one.
\<close>

definition roundingBuffer :: AudioBuffer where
  "roundingBuffer =
     \<lparr>sampleRate = 16000, channelData = [[1 / 2], [8388609 / 16777216]]\<rparr>"




section \<open>Properties of the render loop\<close>



text \<open>
  The state that \<^verbatim>\<open>render\<close> captures is the one with which \<^verbatim>\<open>handleDownload\<close> passed its
  own guard, in which \<^verbatim>\<open>isRendering\<close> is false: called with that state, \<^verbatim>\<open>render\<close> returns
  at its first line and assigns no opacity.
\<close>

lemma render_stale_guard: "downloadStarts st \<Longrightarrow> render st useFade ended t = None"
  by (auto simp: downloadStarts_def render_def split: option.splits)




text \<open>
  Claim C8, as stated, fails: in an environment that supports none of the listed formats
  the selection does not fail; it yields \<^verbatim>\<open>video/webm\<close>, a format the environment does
  not support.
\<close>

theorem output_format_counterexample:
  "chooseMimeType supportsNothing = ''video/webm'' \<and>
   \<not> supportsNothing (chooseMimeType supportsNothing)"
  by (simp add: chooseMimeType_def mimeTypes_def supportsNothing_def)

lemma find_first:
  "List.find P xs = Some x \<Longrightarrow> \<exists>i < length xs. xs ! i = x \<and> P x \<and> (\<forall>j < i. \<not> P (xs ! j))"
  by (auto simp: find_Some_iff)

text \<open>
  Claim C8, amended. The output format is the first entry of the preference list that
  the environment supports; when the environment supports no entry, the format is the
  fallback \<^verbatim>\<open>video/webm\<close>.
\<close>

theorem output_format:
  "((\<exists>t \<in> set mimeTypes. isTypeSupported t) \<longrightarrow>
     (\<exists>i < length mimeTypes. chooseMimeType isTypeSupported = mimeTypes ! i \<and>
        isTypeSupported (mimeTypes ! i) \<and> (\<forall>j < i. \<not> isTypeSupported (mimeTypes ! j)))) \<and>
   ((\<forall>t \<in> set mimeTypes. \<not> isTypeSupported t) \<longrightarrow>
      chooseMimeType isTypeSupported = ''video/webm'')"
proof
  show "(\<exists>t \<in> set mimeTypes. isTypeSupported t) \<longrightarrow>
     (\<exists>i < length mimeTypes. chooseMimeType isTypeSupported = mimeTypes ! i \<and>
        isTypeSupported (mimeTypes ! i) \<and> (\<forall>j < i. \<not> isTypeSupported (mimeTypes ! j)))"
  proof
    assume ex: "\<exists>t \<in> set mimeTypes. isTypeSupported t"
    then obtain x where f: "List.find isTypeSupported mimeTypes = Some x"
      by (cases "List.find isTypeSupported mimeTypes") (auto simp: find_None_iff)
    from find_first[OF f] f show "\<exists>i < length mimeTypes. chooseMimeType isTypeSupported = mimeTypes ! i \<and>
        isTypeSupported (mimeTypes ! i) \<and> (\<forall>j < i. \<not> isTypeSupported (mimeTypes ! j))"
      by (auto simp: chooseMimeType_def)
  qed
  show "(\<forall>t \<in> set mimeTypes. \<not> isTypeSupported t) \<longrightarrow>
      chooseMimeType isTypeSupported = ''video/webm''"
    by (auto simp: chooseMimeType_def find_Some_iff split: option.splits)
qed

text \<open>
  With MP4 and plain WebM supported, the third entry of the list wins over the fourth.
\<close>

theorem output_format_witness:
  "supportsPlainOnly ''video/mp4'' \<and> chooseMimeType supportsPlainOnly = ''video/webm'' \<and>
   chooseMimeType supportsNothing = ''video/webm''"
  using output_format[of supportsPlainOnly] output_format[of supportsNothing]
  by (simp add: supportsPlainOnly_def supportsNothing_def chooseMimeType_def mimeTypes_def)

section \<open>Properties of the frame sampler\<close>

lemma seeksOf_append: "seeksOf (xs @ ys) = seeksOf xs @ seeksOf ys"
  by (induction xs rule: seeksOf.induct) simp_all

lemma progressOf_append: "progressOf (xs @ ys) = progressOf xs @ progressOf ys"
  by (induction xs rule: progressOf.induct) simp_all

lemma sampleLoop_trace:
  "sampleLoop capture n interval i (frames, trace) = (frames', trace') \<Longrightarrow>
     length frames' \<le> length frames + (n - i) \<and>
     seeksOf trace' = seeksOf trace @ map (\<lambda>k. real k * interval) [i..<n] \<and>
     progressOf trace' =
       progressOf trace @ map (\<lambda>k. (real (k + 1) / real n) * 100) [i..<n] \<and>
     filter (\<lambda>e. \<not> isWarn e) trace' = filter (\<lambda>e. \<not> isWarn e) trace @
        concat (map (\<lambda>k. [Seek (real k * interval), Progress ((real (k + 1) / real n) * 100)]) [i..<n])"
proof (induction capture n interval i "(frames, trace)" arbitrary: frames trace rule: sampleLoop.induct)
  case (1 capture frameCount interval i frames trace)
  show ?case
  proof (cases "i < frameCount")
    case False
    with "1.prems" show ?thesis by simp
  next
    case True
    note lt = this
    show ?thesis
    proof (cases "payload (capture (real i * interval))")
      case None
      with lt "1.prems" have
        "sampleLoop capture frameCount interval (Suc i)
           (frames, trace @ [Seek (real i * interval), Warn (real i * interval),
              Progress ((real (i + 1) / real frameCount) * 100)]) = (frames', trace')"
        by (simp add: Let_def)
      from "1.hyps"(1)[OF lt refl None this] lt show ?thesis
        by (auto simp add: upt_conv_Cons seeksOf_append progressOf_append)
    next
      case (Some d)
      with lt "1.prems" have
        "sampleLoop capture frameCount interval (Suc i)
           (frames @ [\<lparr>data = d, mimeType = ''image/jpeg''\<rparr>],
            trace @ [Seek (real i * interval), Progress ((real (i + 1) / real frameCount) * 100)])
         = (frames', trace')"
        by (simp add: Let_def)
      from "1.hyps"(2)[OF lt refl Some this] lt show ?thesis
        by (auto simp add: upt_conv_Cons seeksOf_append progressOf_append)
    qed
  qed
qed

lemma seek_before_end:
  assumes "0 < D" and "i < n"
  shows "0 \<le> real i * (D / real n) \<and> real i * (D / real n) < D"
proof -
  from assms have n: "0 < real n" by simp
  have "real i * (D / real n) = D * (real i / real n)" by simp
  moreover from assms n have "real i / real n < 1" by simp
  moreover from assms n have "0 \<le> real i / real n" by simp
  ultimately show ?thesis using assms(1)
    by (metis mult.right_neutral mult_less_cancel_left_pos mult_nonneg_nonneg less_imp_le)
qed

text \<open>
  Claim C6. For \<open>frameCount > 0\<close> and a source that reaches \<^verbatim>\<open>canplay\<close> with a finite
  duration \<open>D > 0\<close>, the sampler resolves with at most \<open>frameCount\<close> frames; apart from
  the warnings about skipped frames, its effects are, for \<open>i = 0, ..., frameCount - 1\<close>
  in this order, the seek to \<open>i * (D / frameCount)\<close> followed by the progress call with
  \<open>(i + 1) / frameCount * 100\<close> (one per index, skipped or not), and at last the release
  of the object URL; every seek position is below \<open>D\<close>.
\<close>

theorem frame_sampler:
  assumes "0 < frameCount" and "0 < D"
    and "hasCanvasContext video" and "loadEvent video = CanPlay" and "videoDuration video = Seconds D"
  shows "\<exists>frames trace. extractVideoFrames video frameCount = (Inr frames, trace) \<and>
           length frames \<le> frameCount \<and>
           filter (\<lambda>e. \<not> isWarn e) trace =
             concat (map (\<lambda>i. [Seek (real i * (D / real frameCount)),
                                Progress ((real (i + 1) / real frameCount) * 100)]) [0..<frameCount])
             @ [RevokeObjectURL] \<and>
           seeksOf trace = map (\<lambda>i. real i * (D / real frameCount)) [0..<frameCount] \<and>
           progressOf trace =
             map (\<lambda>i. (real (i + 1) / real frameCount) * 100) [0..<frameCount] \<and>
           (\<forall>t \<in> set (seeksOf trace). 0 \<le> t \<and> t < D)"
proof -
  obtain frames trace where
    loop: "sampleLoop (frameData video) frameCount (D / real frameCount) 0 ([], []) = (frames, trace)"
    by (cases "sampleLoop (frameData video) frameCount (D / real frameCount) 0 ([], [])") auto
  from sampleLoop_trace[OF loop] have
    len: "length frames \<le> frameCount" and
    seeks: "seeksOf trace = map (\<lambda>k. real k * (D / real frameCount)) [0..<frameCount]" and
    prog: "progressOf trace =
             map (\<lambda>k. (real (k + 1) / real frameCount) * 100) [0..<frameCount]" and
    tr: "filter (\<lambda>e. \<not> isWarn e) trace =
        concat (map (\<lambda>k. [Seek (real k * (D / real frameCount)),
                  Progress ((real (k + 1) / real frameCount) * 100)]) [0..<frameCount])"
    by simp_all
  have seeks': "seeksOf (trace @ [RevokeObjectURL]) = seeksOf trace"
    by (simp add: seeksOf_append)
  have prog': "progressOf (trace @ [RevokeObjectURL]) = progressOf trace"
    by (simp add: progressOf_append)
  from assms have D: "usableDuration (videoDuration video) = Some D" by simp
  have res: "extractVideoFrames video frameCount = (Inr frames, trace @ [RevokeObjectURL])"
    using assms(3,4) D loop by (simp add: extractVideoFrames_def)
  have bound: "\<forall>t \<in> set (seeksOf (trace @ [RevokeObjectURL])). 0 \<le> t \<and> t < D"
    unfolding seeks' seeks using seek_before_end[OF assms(2)] by auto
  from res len tr seeks seeks' prog prog' bound show ?thesis by simp
qed

text \<open>
  A source of 40 seconds sampled 10 times: the seeks go to 0, 4, ..., 36, and the two
  near-empty frames leave 8 frames.
\<close>

theorem frame_sampler_witness:
  "\<exists>frames trace. extractVideoFrames demoVideo 10 = (Inr frames, trace) \<and>
     length frames = 8 \<and> seeksOf trace = [0, 4, 8, 12, 16, 20, 24, 28, 32, 36] \<and>
     progressOf trace = [10, 20, 30, 40, 50, 60, 70, 80, 90, 100]"
  using frame_sampler[of 10 40 demoVideo]
  by (simp add: demoVideo_def extractVideoFrames_def payload_def upt_conv_Cons)

section \<open>Properties of the selection handler\<close>

text \<open>
  Claim C10. When the metadata of a selected file report a duration below 30 seconds,
  the handler reports the error, revokes the object URL, and leaves the source file and
  the preview unset, so that neither \<^verbatim>\<open>handleSubmit\<close> nor \<^verbatim>\<open>handleDownload\<close> starts;
  with a duration of at least 30 seconds the file is stored, its URL becomes the preview
  and is not revoked.
\<close>

theorem file_selection:
  fixes st :: app_state
  shows "(d < 30 \<longrightarrow>
      (let st' = handleFileChange (Some file) videoUrl (LoadedMetadata (Seconds d)) st
       in error st' = Some VideoTooShort \<and> videoUrl \<in> set (revokedUrls st') \<and>
          videoFile st' = None \<and> videoPreviewUrl st' = None \<and>
          \<not> submitStarts st' \<and> \<not> downloadStarts st' \<and> handleSubmit env st' = st')) \<and>
   (30 \<le> d \<longrightarrow>
      (let st' = handleFileChange (Some file) videoUrl (LoadedMetadata (Seconds d)) st
       in videoFile st' = Some file \<and> videoPreviewUrl st' = Some videoUrl \<and> error st' = None \<and>
          revokedUrls st' = revokedUrls st))"
  by (simp add: handleFileChange_def onloadedmetadata_def resetSelection_def Let_def
        submitStarts_def downloadStarts_def handleSubmit_def)

text \<open>A clip of 12 seconds is refused, one of 45 seconds is accepted.\<close>

theorem file_selection_witness:
  "error (handleFileChange (Some demoFile) ''blob:1'' (LoadedMetadata (Seconds 12)) initialState)
     = Some VideoTooShort \<and>
   videoFile (handleFileChange (Some demoFile) ''blob:1'' (LoadedMetadata (Seconds 12)) initialState)
     = None \<and>
   videoFile (handleFileChange (Some demoFile) ''blob:1'' (LoadedMetadata (Seconds 45)) initialState)
     = Some demoFile"
  using file_selection[of 12 demoFile "''blob:1''" initialState silentEnv]
    file_selection[of 45 demoFile "''blob:1''" initialState silentEnv]
  by (simp add: Let_def)


section \<open>Properties of the WAV serializer\<close>

lemma list_update_Cons_numeral:
  "(x # xs)[numeral v := y] = x # xs[numeral v - 1 := y]"
  by (simp add: numeral_eq_Suc)

lemma replicate_numeral: "replicate (numeral v) x = x # replicate (numeral v - 1) x"
  by (simp add: numeral_eq_Suc)

lemma writeSamples_append:
  "writeSamples (length pre) xs (pre @ replicate (2 * length xs) 0 @ post)
     = pre @ concat (map (\<lambda>x. int16Bytes (pcmSample x)) xs) @ post"
proof (induction xs arbitrary: pre)
  case Nil
  show ?case by simp
next
  case (Cons x xs)
  have "setInt16 (length pre) (pcmSample x) (pre @ replicate (2 * length (x # xs)) 0 @ post)
        = (pre @ int16Bytes (pcmSample x)) @ replicate (2 * length xs) 0 @ post"
    by (simp add: setInt16_def int16Bytes_def list_update_append)
  moreover have "length pre + 2 = length (pre @ int16Bytes (pcmSample x))"
    by (simp add: int16Bytes_def)
  ultimately show ?case
    using Cons.IH[of "pre @ int16Bytes (pcmSample x)"] by (simp del: append_assoc add: int16Bytes_def)
qed

lemma header_writes:
  "fold (\<lambda>write view. write view)
           [writeString 0 ''RIFF'',
            setUint32 4 a,
            writeString 8 ''WAVE'',
            writeString 12 ''fmt '',
            setUint32 16 b,
            setUint16 20 c,
            setUint16 22 d,
            setUint32 24 e,
            setUint32 28 f,
            setUint16 32 g,
            setUint16 34 h,
            writeString 36 ''data'',
            setUint32 40 k] (replicate 44 0 @ rest) =
     (asciiBytes ''RIFF'' @ u32le a @ asciiBytes ''WAVE'' @
     asciiBytes ''fmt '' @ u32le b @ u16le c @ u16le d @ u32le e @
     u32le f @ u16le g @ u16le h @
     asciiBytes ''data'' @ u32le k) @ rest"
  by (simp add: setUint32_def setUint16_def setUint8_def asciiBytes_def u32le_def u16le_def
        replicate_numeral list_update_Cons_numeral)

lemma length_wavHeader: "length (wavHeader numChannels rate dataSize) = 44"
  by (simp add: wavHeader_def asciiBytes_def u32le_def u16le_def)

lemma wavBuffer_layout:
  "wavBuffer numChannels rate result =
     wavHeader numChannels rate (2 * length result) @
     concat (map (\<lambda>x. int16Bytes (pcmSample x)) result)"
  (is "_ = ?H @ ?S")
proof -
  let ?n = "length result"
  let ?ws = "[writeString 0 ''RIFF'',
            setUint32 4 (36 + 2 * ?n),
            writeString 8 ''WAVE'',
            writeString 12 ''fmt '',
            setUint32 16 16,
            setUint16 20 1,
            setUint16 22 numChannels,
            setUint32 24 rate,
            setUint32 28 (rate * (numChannels * 2)),
            setUint16 32 (numChannels * 2),
            setUint16 34 16,
            writeString 36 ''data'',
            setUint32 40 (2 * ?n)]"
  have sizes: "(16::nat) div 8 = 2" "?n * 2 = 2 * ?n"
    by simp_all
  have zeros: "replicate (44 + 2 * ?n) (0::byte) = replicate 44 0 @ replicate (2 * ?n) 0 @ []"
    by (simp add: replicate_add[symmetric] del: replicate_add)
  have "wavBuffer numChannels rate result =
          fold (\<lambda>write view. write view) (?ws @ [writeSamples 44 result])
            (replicate 44 0 @ replicate (2 * ?n) 0 @ [])"
    unfolding wavBuffer_def Let_def sizes zeros by (simp only: append.simps)
  also have "\<dots> = writeSamples 44 result
                    (fold (\<lambda>write view. write view) ?ws (replicate 44 0 @ replicate (2 * ?n) 0 @ []))"
    by (simp only: fold_append fold_simps comp_apply id_apply)
  also have "\<dots> = writeSamples 44 result (?H @ replicate (2 * ?n) 0 @ [])"
    by (simp only: header_writes wavHeader_def)
  also have "\<dots> = ?H @ ?S @ []"
    using writeSamples_append[of ?H result "[]"] by (simp add: length_wavHeader)
  finally show ?thesis by simp
qed

lemma length_samples: "length (concat (map (\<lambda>x. int16Bytes (pcmSample x)) xs)) = 2 * length xs"
  by (induction xs) (simp_all add: int16Bytes_def)

lemma binaryString_drop: "binaryString bytes i = map (\<lambda>b. char_of (unat b)) (drop i bytes)"
proof (induction bytes i rule: binaryString.induct)
  case (1 bytes i)
  show ?case
  proof (cases "i < length bytes")
    case True
    have "drop (i + 8192) bytes = drop 8192 (drop i bytes)"
      by (simp add: add.commute)
    with True "1.IH" have "binaryString bytes i =
        map (\<lambda>b. char_of (unat b)) (take 8192 (drop i bytes) @ drop 8192 (drop i bytes))"
      by (subst binaryString.simps) simp
    then show ?thesis by (simp only: append_take_drop_id)
  next
    case False
    then show ?thesis by (subst binaryString.simps) simp
  qed
qed

lemma truncate_range:
  assumes "- 1 \<le> s" "s \<le> 1"
  shows "- 32768 \<le> truncateNumber (if s < 0 then s * 32768 else s * 32767) \<and>
         truncateNumber (if s < 0 then s * 32768 else s * 32767) \<le> 32767"
proof (cases "s < 0")
  case True
  with assms have "0 \<le> - (s * 32768)" "- (s * 32768) \<le> 32768" by simp_all
  then have low: "0 \<le> \<lfloor>- (s * 32768)\<rfloor>" and high: "\<lfloor>- (s * 32768)\<rfloor> \<le> 32768"
    by (simp_all add: floor_le_iff le_floor_iff)
  from True have "truncateNumber (if s < 0 then s * 32768 else s * 32767) = - \<lfloor>- (s * 32768)\<rfloor>"
    by (simp add: truncateNumber_def mult_less_0_iff)
  with low high show ?thesis by linarith
next
  case False
  with assms have "0 \<le> s * 32767" "s * 32767 \<le> 32767" by simp_all
  then have low: "0 \<le> \<lfloor>s * 32767\<rfloor>" and high: "\<lfloor>s * 32767\<rfloor> \<le> 32767"
    by (simp_all add: le_floor_iff floor_le_iff)
  from False have "truncateNumber (if s < 0 then s * 32768 else s * 32767) = \<lfloor>s * 32767\<rfloor>"
    by (simp add: truncateNumber_def mult_less_0_iff)
  with low high show ?thesis by linarith
qed

lemma sint_int16: "- 32768 \<le> v \<Longrightarrow> v \<le> 32767 \<Longrightarrow> sint (word_of_int v :: 16 word) = v"
  by (simp add: int_word_sint)

lemma sint_pcmSample:
  "sint (pcmSample x) = truncateNumber (max (- 1) (min 1 x) * (if x < 0 then 32768 else 32767))"
proof -
  let ?s = "max (- 1) (min 1 x)"
  have eq: "(?s < 0) = (x < 0)" by auto
  have "- 1 \<le> ?s" "?s \<le> 1" by auto
  from truncate_range[OF this] have "sint (toInt16 (if ?s < 0 then ?s * 32768 else ?s * 32767))
     = truncateNumber (if ?s < 0 then ?s * 32768 else ?s * 32767)"
    unfolding toInt16_def by (intro sint_int16) auto
  then show ?thesis unfolding pcmSample_def Let_def eq by (simp split: if_splits)
qed

lemma int16Bytes_little_endian: "getUint16 0 (int16Bytes w) = unat w"
proof -
  have "unat w < 65536" using unsigned_less[of w, where 'a=nat] by simp
  then show ?thesis
    by (simp add: getUint16_def int16Bytes_def unsigned_ucast_eq unat_drop_bit_eq drop_bit_eq_div take_bit_eq_mod unat_div)
qed

lemma u16_recompose:
  fixes v :: nat
  assumes "v < 65536"
  shows "v mod 256 + 256 * (v div 256 mod 256) = v"
proof -
  from assms have "v div 256 < 256" by simp
  then show ?thesis by simp
qed

lemma u32_recompose:
  fixes v :: nat
  assumes "v < 4294967296"
  shows "v mod 256 + 256 * (v div 256 mod 256) + 65536 * (v div 65536 mod 256) +
         16777216 * (v div 16777216 mod 256) = v"
proof -
  have d2: "v div 65536 = v div 256 div 256" and d3: "v div 16777216 = v div 256 div 256 div 256"
    by (simp_all add: div_mult2_eq[symmetric])
  from assms have small: "v div 256 div 256 div 256 < 256"
    by (simp add: div_mult2_eq[symmetric])
  let ?a = "v div 256" let ?b = "v div 256 div 256" let ?c = "v div 256 div 256 div 256"
  have 1: "v = 256 * ?a + v mod 256" by simp
  have 2: "?a = 256 * ?b + ?a mod 256" by simp
  have 3: "?b = 256 * ?c + ?b mod 256" by simp
  have 4: "?c mod 256 = ?c" using small by simp
  show ?thesis unfolding d2 d3 4 using 1 2 3 by linarith
qed

lemma parse_wavHeader:
  assumes "numChannels < 65536" "rate < 4294967296" "dataSize < 4294967296"
  shows "parseWavHeader (wavHeader numChannels rate dataSize @ samples) =
           \<lparr>hdrDataSize = dataSize, hdrSampleRate = rate, hdrChannelCount = numChannels,
            hdrBitDepth = 16\<rparr>"
  using u32_recompose[OF assms(2)] u32_recompose[OF assms(3)] u16_recompose[OF assms(1)]
  by (simp add: parseWavHeader_def getUint32_def getUint16_def wavHeader_def asciiBytes_def
        u32le_def u16le_def unat_of_nat)

lemma wavSamples_valid:
  "validAudioBuffer buffer \<Longrightarrow> \<exists>result. wavSamples buffer = Some result"
  by (cases "channelData buffer")
     (auto simp: validAudioBuffer_def wavSamples_def getChannelData_def numberOfChannels_def)

lemma audioBufferToWav_text:
  "wavSamples buffer = Some result \<Longrightarrow>
   audioBufferToWav buffer =
     Some (btoa (map (\<lambda>b. char_of (unat b))
                   (wavBuffer (numberOfChannels buffer) (sampleRate buffer) result)))"
  by (simp add: audioBufferToWav_def binaryString_drop del: binaryString.simps)

lemma length_wavBuffer: "length (wavBuffer n r result) = 44 + 2 * length result"
  unfolding wavBuffer_layout by (simp add: length_wavHeader length_samples)

lemma take_wavBuffer: "take 44 (wavBuffer n r result) = wavHeader n r (2 * length result)"
  unfolding wavBuffer_layout by (simp add: length_wavHeader)

lemma drop_wavBuffer:
  "drop 44 (wavBuffer n r result) = concat (map (\<lambda>x. int16Bytes (pcmSample x)) result)"
  unfolding wavBuffer_layout by (simp add: length_wavHeader)

lemma parse_wavBuffer:
  assumes "n < 65536" "r < 4294967296" "2 * length result < 4294967296"
  shows "parseWavHeader (wavBuffer n r result) =
           \<lparr>hdrDataSize = 2 * length result, hdrSampleRate = r, hdrChannelCount = n,
            hdrBitDepth = 16\<rparr>"
  unfolding wavBuffer_layout using assms by (rule parse_wavHeader)

lemma interleave_upto:
  "length (concat (map (\<lambda>i. [left ! i, right ! i]) [0..<n])) = 2 * n \<and>
   (\<forall>i < n. concat (map (\<lambda>i. [left ! i, right ! i]) [0..<n]) ! (2 * i) = left ! i \<and>
            concat (map (\<lambda>i. [left ! i, right ! i]) [0..<n]) ! (2 * i + 1) = right ! i)"
proof (induction n)
  case 0
  show ?case by simp
next
  case (Suc n)
  let ?xs = "concat (map (\<lambda>i. [left ! i, right ! i]) [0..<n])"
  from Suc have len: "length ?xs = 2 * n" by simp
  have step: "concat (map (\<lambda>i. [left ! i, right ! i]) [0..<Suc n]) = ?xs @ [left ! n, right ! n]"
    by simp
  show ?case
  proof (intro conjI allI impI)
    show "length (concat (map (\<lambda>i. [left ! i, right ! i]) [0..<Suc n])) = 2 * Suc n"
      unfolding step using len by simp
  next
    fix i assume "i < Suc n"
    then consider "i < n" | "i = n" by linarith
    then show "concat (map (\<lambda>i. [left ! i, right ! i]) [0..<Suc n]) ! (2 * i) = left ! i"
    proof cases
      case 1
      with Suc len show ?thesis unfolding step by (simp add: nth_append)
    next
      case 2
      with len show ?thesis unfolding step by (simp add: nth_append)
    qed
  next
    fix i assume "i < Suc n"
    then consider "i < n" | "i = n" by linarith
    then show "concat (map (\<lambda>i. [left ! i, right ! i]) [0..<Suc n]) ! (2 * i + 1) = right ! i"
    proof cases
      case 1
      with Suc len show ?thesis unfolding step by (simp add: nth_append)
    next
      case 2
      with len show ?thesis unfolding step by (simp add: nth_append)
    qed
  qed
qed

lemma wavSamples_channels:
  assumes "validAudioBuffer buffer" and "wavSamples buffer = Some result"
  shows "(numberOfChannels buffer = 2 \<longrightarrow>
           length result = 2 * bufferLength buffer \<and>
           (\<forall>i < bufferLength buffer.
              result ! (2 * i) = channelData buffer ! 0 ! i \<and>
              result ! (2 * i + 1) = channelData buffer ! 1 ! i)) \<and>
         (numberOfChannels buffer \<noteq> 2 \<longrightarrow> result = channelData buffer ! 0)"
proof (cases "numberOfChannels buffer = 2")
  case True
  with assms(2) have r: "result = interleave (channelData buffer ! 0) (channelData buffer ! 1)"
    by (simp add: wavSamples_def getChannelData_def)
  from True assms(1) have "length (channelData buffer ! 0) = bufferLength buffer"
    by (cases "channelData buffer") (auto simp: validAudioBuffer_def numberOfChannels_def bufferLength_def)
  with interleave_upto[of "channelData buffer ! 0" "channelData buffer ! 1" "bufferLength buffer"] True
  show ?thesis unfolding r interleave_def by simp
next
  case False
  with assms show ?thesis
    by (auto simp: wavSamples_def getChannelData_def split: if_splits)
qed

text \<open>
  Claim C1. For every audio buffer that satisfies the \<^verbatim>\<open>AudioBuffer\<close> interface, the
  serializer returns the base64 text of a byte sequence of \<open>44 + dataSize\<close> bytes whose
  first 44 bytes are exactly the PCM header \<open>wavHeader\<close> (with the channel count, the
  sample rate and \<open>dataSize = 2 * number of samples\<close> of the buffer) and whose remaining
  bytes are the samples, two bytes each, low byte first; the samples are those of
  channel 0, or of both channels interleaved when the buffer is stereo; each sample is
  the float clamped to \<open>[-1, 1]\<close>, scaled by 32768 when negative and by 32767 otherwise,
  and truncated to a signed 16-bit integer. When the values fit their header fields,
  reading the header back yields the data size, sample rate, channel count and bit depth
  used to encode.
\<close>

theorem wav_serializer:
  assumes "validAudioBuffer buffer"
  shows "\<exists>result bytes.
     wavSamples buffer = Some result \<and>
     (numberOfChannels buffer = 2 \<longrightarrow>
        length result = 2 * bufferLength buffer \<and>
        (\<forall>i < bufferLength buffer.
           result ! (2 * i) = channelData buffer ! 0 ! i \<and>
           result ! (2 * i + 1) = channelData buffer ! 1 ! i)) \<and>
     (numberOfChannels buffer \<noteq> 2 \<longrightarrow> result = channelData buffer ! 0) \<and>
     bytes = wavBuffer (numberOfChannels buffer) (sampleRate buffer) result \<and>
     audioBufferToWav buffer = Some (btoa (map (\<lambda>b. char_of (unat b)) bytes)) \<and>
     length bytes = 44 + 2 * length result \<and>
     take 44 bytes = wavHeader (numberOfChannels buffer) (sampleRate buffer) (2 * length result) \<and>
     drop 44 bytes = concat (map (\<lambda>x. int16Bytes (pcmSample x)) result) \<and>
     (\<forall>x. sint (pcmSample x) =
            truncateNumber (max (- 1) (min 1 x) * (if x < 0 then 32768 else 32767)) \<and>
          getUint16 0 (int16Bytes (pcmSample x)) = unat (pcmSample x)) \<and>
     (numberOfChannels buffer < 65536 \<and> sampleRate buffer < 4294967296 \<and>
      2 * length result < 4294967296 \<longrightarrow>
        parseWavHeader bytes =
          \<lparr>hdrDataSize = 2 * length result, hdrSampleRate = sampleRate buffer,
           hdrChannelCount = numberOfChannels buffer, hdrBitDepth = 16\<rparr>)"
proof -
  from wavSamples_valid[OF assms] obtain result where r: "wavSamples buffer = Some result"
    by blast
  note channels = wavSamples_channels[OF assms r]
  show ?thesis
  proof (intro exI conjI)
    show "wavSamples buffer = Some result" by (rule r)
    show "numberOfChannels buffer = 2 \<longrightarrow>
        length result = 2 * bufferLength buffer \<and>
        (\<forall>i < bufferLength buffer.
           result ! (2 * i) = channelData buffer ! 0 ! i \<and>
           result ! (2 * i + 1) = channelData buffer ! 1 ! i)"
      using channels by (rule conjunct1)
    show "numberOfChannels buffer \<noteq> 2 \<longrightarrow> result = channelData buffer ! 0"
      using channels by (rule conjunct2)
    show "wavBuffer (numberOfChannels buffer) (sampleRate buffer) result =
          wavBuffer (numberOfChannels buffer) (sampleRate buffer) result" by (rule refl)
    show "audioBufferToWav buffer =
       Some (btoa (map (\<lambda>b. char_of (unat b))
          (wavBuffer (numberOfChannels buffer) (sampleRate buffer) result)))"
      by (rule audioBufferToWav_text[OF r])
    show "length (wavBuffer (numberOfChannels buffer) (sampleRate buffer) result) =
          44 + 2 * length result" by (rule length_wavBuffer)
    show "take 44 (wavBuffer (numberOfChannels buffer) (sampleRate buffer) result) =
          wavHeader (numberOfChannels buffer) (sampleRate buffer) (2 * length result)"
      by (rule take_wavBuffer)
    show "drop 44 (wavBuffer (numberOfChannels buffer) (sampleRate buffer) result) =
          concat (map (\<lambda>x. int16Bytes (pcmSample x)) result)" by (rule drop_wavBuffer)
    show "\<forall>x. sint (pcmSample x) =
            truncateNumber (max (- 1) (min 1 x) * (if x < 0 then 32768 else 32767)) \<and>
          getUint16 0 (int16Bytes (pcmSample x)) = unat (pcmSample x)"
      by (simp add: sint_pcmSample int16Bytes_little_endian)
    show "numberOfChannels buffer < 65536 \<and> sampleRate buffer < 4294967296 \<and>
          2 * length result < 4294967296 \<longrightarrow>
          parseWavHeader (wavBuffer (numberOfChannels buffer) (sampleRate buffer) result) =
          \<lparr>hdrDataSize = 2 * length result, hdrSampleRate = sampleRate buffer,
           hdrChannelCount = numberOfChannels buffer, hdrBitDepth = 16\<rparr>"
      by (intro impI parse_wavBuffer) simp_all
  qed
qed

text \<open>
  Three mono samples at 16 kHz: the header reads back as 6 data bytes, 16000 Hz, one
  channel, 16 bits; the samples 0.5, -1 and 2 become 16383, -32768 and 32767. The two
  channels of a stereo buffer are interleaved.
\<close>

theorem wav_serializer_witness:
  "parseWavHeader (wavBuffer 1 16000 [1 / 2, - 1, 2]) =
      \<lparr>hdrDataSize = 6, hdrSampleRate = 16000, hdrChannelCount = 1, hdrBitDepth = 16\<rparr> \<and>
   map (\<lambda>x. sint (pcmSample x)) [1 / 2, - 1, 2] = [16383, - 32768, 32767] \<and>
   wavSamples stereoBuffer = Some [1, 0, 0, 0, 1 / 2, 1 / 4, - 1, - 1]"
  using wav_serializer[of monoBuffer3] wav_serializer[of stereoBuffer]
  by (simp add: monoBuffer3_def stereoBuffer_def validAudioBuffer_def bufferLength_def
        wavSamples_def numberOfChannels_def getChannelData_def truncateNumber_def
        interleave_def upt_conv_Cons)

section \<open>Properties of floating-point rounding\<close>

lemma roundHalfEven_error: "\<bar>of_int (roundHalfEven y) - y\<bar> \<le> 1 / 2"
  unfolding roundHalfEven_def Let_def by (auto simp: abs_le_iff)

lemma roundHalfEven_of_int: "roundHalfEven (of_int z) = z"
  by (simp add: roundHalfEven_def)

lemma quantum_pos: "0 < quantum p m x"
  by (simp add: quantum_def)

lemma roundToFormat_error:
  "\<bar>roundToFormat p m x - x\<bar> \<le> quantum p m x / 2"
proof (cases "x = 0")
  case True
  then show ?thesis using quantum_pos[of p m x] by (simp add: roundToFormat_def)
next
  case False
  let ?q = "quantum p m x"
  have q: "0 < ?q" by (rule quantum_pos)
  have "roundToFormat p m x - x = (of_int (roundHalfEven (x / ?q)) - x / ?q) * ?q"
    using False q by (simp add: roundToFormat_def algebra_simps)
  then have "\<bar>roundToFormat p m x - x\<bar> = \<bar>of_int (roundHalfEven (x / ?q)) - x / ?q\<bar> * ?q"
    using q by (simp add: abs_mult)
  also have "\<dots> \<le> (1 / 2) * ?q"
    using roundHalfEven_error[of "x / ?q"] q by (intro mult_right_mono) simp_all
  finally show ?thesis by simp
qed

lemma binaryExponent_eq:
  assumes "2 powi e \<le> \<bar>x\<bar>" "\<bar>x\<bar> < 2 powi (e + 1)"
  shows "binaryExponent x = e"
proof -
  have pos: "0 < \<bar>x\<bar>" using assms(1) zero_less_power_int[of "2::real" e] by linarith
  have "(2::real) powr (of_int e) = 2 powi e" "(2::real) powr (of_int (e + 1)) = 2 powi (e + 1)"
    using powr_real_of_int'[of "2::real" e] powr_real_of_int'[of "2::real" "e + 1"] by simp_all
  with assms have "2 powr (of_int e) \<le> \<bar>x\<bar> \<and> \<bar>x\<bar> < 2 powr (of_int e + 1)"
    by simp
  then show ?thesis
    unfolding binaryExponent_def using floor_log_eq_powr_iff[OF pos, of 2 e] by simp
qed

lemma binaryExponent_less:
  assumes "x \<noteq> 0" "\<bar>x\<bar> < 2 powi n"
  shows "binaryExponent x < n"
proof -
  have pos: "0 < \<bar>x\<bar>" using assms(1) by simp
  have "log 2 \<bar>x\<bar> < log 2 (2 powi n)"
    using assms(2) pos by (simp add: log_less_cancel_iff)
  also have "log 2 (2 powi n) = of_int n"
    by (simp add: powr_real_of_int'[symmetric])
  finally show ?thesis
    unfolding binaryExponent_def by (simp add: floor_less_iff)
qed

lemma roundToFormat_dyadic:
  assumes x: "x = of_int k * 2 powi j" and k: "\<bar>k\<bar> < 2 ^ p" and j: "m - int p + 1 \<le> j"
  shows "roundToFormat p m x = x"
proof (cases "x = 0")
  case True
  then show ?thesis by (simp add: roundToFormat_def)
next
  case False
  have "\<bar>x\<bar> = of_int \<bar>k\<bar> * 2 powi j"
    unfolding x by (simp add: abs_mult)
  also have "\<dots> < 2 ^ p * 2 powi j"
  proof -
    from k have "(of_int \<bar>k\<bar> :: real) < of_int (2 ^ p)" by (simp only: of_int_less_iff)
    then show ?thesis by (intro mult_strict_right_mono) simp_all
  qed
  also have "\<dots> = 2 powi (int p + j)"
    by (simp add: power_int_add)
  finally have "binaryExponent x < int p + j"
    by (rule binaryExponent_less[OF False])
  with j have le: "max (binaryExponent x) m - int p + 1 \<le> j" by simp
  define d where "d = nat (j - (max (binaryExponent x) m - int p + 1))"
  define Q where "Q = quantum p m x"
  from le have d: "max (binaryExponent x) m - int p + 1 = j - int d"
    by (simp add: d_def)
  have q: "Q = 2 powi (j - int d)"
    by (simp add: Q_def quantum_def d)
  have Qpos: "0 < Q" unfolding Q_def by (rule quantum_pos)
  have pw: "2 powi j = (2::real) powi (j - int d) * 2 ^ d"
    using power_int_add[of "2::real" "j - int d" "int d"] by simp
  have xq: "x = of_int (k * 2 ^ d) * Q"
    by (simp add: x q pw)
  then have "x / Q = of_int (k * 2 ^ d)"
    using Qpos by (simp del: of_int_mult of_int_power)
  then have "roundHalfEven (x / Q) = k * 2 ^ d"
    by (simp only: roundHalfEven_of_int)
  then have "of_int (roundHalfEven (x / Q)) * Q = x"
    using xq by simp
  with False show ?thesis
    by (simp add: roundToFormat_def Q_def)
qed

lemma toDouble_dyadic:
  "x = of_int k * 2 powi j \<Longrightarrow> \<bar>k\<bar> < 2 ^ 53 \<Longrightarrow> - 1074 \<le> j \<Longrightarrow> toDouble x = x"
  unfolding toDouble_def by (rule roundToFormat_dyadic) simp_all

lemma toFloat32_dyadic:
  "x = of_int k * 2 powi j \<Longrightarrow> \<bar>k\<bar> < 2 ^ 24 \<Longrightarrow> - 149 \<le> j \<Longrightarrow> toFloat32 x = x"
  unfolding toFloat32_def by (rule roundToFormat_dyadic) simp_all

lemma toFloat32_half: "toFloat32 (16777217 / 33554432) = 1 / 2"
proof -
  have e: "binaryExponent (16777217 / 33554432) = - 1"
    by (rule binaryExponent_eq) simp_all
  show ?thesis
    by (simp add: toFloat32_def roundToFormat_def quantum_def e roundHalfEven_def)
qed

section \<open>Properties of the audio extractor\<close>

lemma channelSum_exact:
  assumes "\<forall>k \<le> n. toDouble (\<Sum>c<k. channelData audioBuffer ! c ! i) =
                     (\<Sum>c<k. channelData audioBuffer ! c ! i)"
  shows "channelSum audioBuffer n i = (\<Sum>c<n. channelData audioBuffer ! c ! i)"
  using assms
proof (induction n)
  case 0
  show ?case by (simp add: channelSum_def)
next
  case (Suc n)
  from Suc.prems have "\<forall>k \<le> n. toDouble (\<Sum>c<k. channelData audioBuffer ! c ! i) =
                     (\<Sum>c<k. channelData audioBuffer ! c ! i)"
    by simp
  then have ih: "channelSum audioBuffer n i = (\<Sum>c<n. channelData audioBuffer ! c ! i)"
    by (rule Suc.IH)
  have top: "toDouble (\<Sum>c<Suc n. channelData audioBuffer ! c ! i) =
                     (\<Sum>c<Suc n. channelData audioBuffer ! c ! i)"
    by (rule Suc.prems[rule_format]) (rule le_refl)
  have "channelSum audioBuffer (Suc n) i =
          toDouble (channelSum audioBuffer n i + channelData audioBuffer ! n ! i)"
    by (simp add: channelSum_def)
  also have "\<dots> = toDouble (\<Sum>c<Suc n. channelData audioBuffer ! c ! i)"
    by (simp add: ih)
  finally show ?case by (simp only: top)
qed

lemma mixed_sample_unrounded:
  assumes "unrounded audioBuffer i"
  shows "toFloat32 (toDouble (channelSum audioBuffer (numberOfChannels audioBuffer) i
           / real (numberOfChannels audioBuffer))) = channelMean audioBuffer i"
proof -
  from assms have "channelSum audioBuffer (numberOfChannels audioBuffer) i =
      (\<Sum>c<numberOfChannels audioBuffer. channelData audioBuffer ! c ! i)"
    by (intro channelSum_exact) (simp add: unrounded_def)
  then have "channelSum audioBuffer (numberOfChannels audioBuffer) i
           / real (numberOfChannels audioBuffer) = channelMean audioBuffer i"
    by (simp add: channelMean_def)
  with assms show ?thesis by (simp add: unrounded_def)
qed

lemma mixToMono_valid:
  assumes "validAudioBuffer audioBuffer"
  shows "\<exists>mixed. mixToMono audioBuffer = Some mixed \<and> validAudioBuffer mixed \<and>
           numberOfChannels mixed = 1 \<and>
           sampleRate mixed = sampleRate audioBuffer \<and>
           bufferLength mixed = bufferLength audioBuffer \<and>
           (1 < numberOfChannels audioBuffer \<longrightarrow>
              channelData mixed =
                [map (\<lambda>i. toFloat32 (toDouble
                        (channelSum audioBuffer (numberOfChannels audioBuffer) i
                           / real (numberOfChannels audioBuffer))))
                   [0..<bufferLength audioBuffer]]) \<and>
           (numberOfChannels audioBuffer = 1 \<longrightarrow> mixed = audioBuffer)"
proof (cases "1 < numberOfChannels audioBuffer")
  case True
  with assms show ?thesis
    by (simp add: mixToMono_def createBuffer_def validAudioBuffer_def Let_def
          numberOfChannels_def bufferLength_def)
next
  case False
  with assms have "numberOfChannels audioBuffer = 1"
    by (cases "channelData audioBuffer") (auto simp: validAudioBuffer_def numberOfChannels_def)
  with assms show ?thesis by (simp add: mixToMono_def)
qed

lemma truncateToMax_long:
  assumes "validAudioBuffer mixed" and "numberOfChannels mixed = 1"
    and "MAX_DURATION * sampleRate mixed < bufferLength mixed"
  shows "truncateToMax mixed =
           Some \<lparr>sampleRate = sampleRate mixed,
                 channelData = [take (MAX_DURATION * sampleRate mixed) (channelData mixed ! 0)]\<rparr>"
proof -
  from assms(1,2) obtain samples where ch: "channelData mixed = [samples]"
    by (cases "channelData mixed") (auto simp: numberOfChannels_def)
  with assms(1) have len: "length samples = bufferLength mixed" and rate: "0 < sampleRate mixed"
    by (auto simp: validAudioBuffer_def)
  from assms(3) rate have dur: "bufferDuration mixed > real MAX_DURATION"
    by (simp add: bufferDuration_def pos_less_divide_eq flip: of_nat_mult of_nat_less_iff)
  from rate have pos: "0 < MAX_DURATION * sampleRate mixed" by (simp add: MAX_DURATION_def)
  from assms(3) len have tk: "length (take (MAX_DURATION * sampleRate mixed) samples) = MAX_DURATION * sampleRate mixed"
    by simp
  show ?thesis
    using dur pos rate ch tk
    by (simp add: truncateToMax_def Let_def createBuffer_def getChannelData_def numberOfChannels_def
          copyToChannel_def)
qed

lemma normalized_long:
  assumes valid: "validAudioBuffer mixed" and one: "numberOfChannels mixed = 1"
    and mix: "mixToMono audioBuffer = Some mixed"
    and rate: "sampleRate mixed = sampleRate audioBuffer"
    and len: "bufferLength mixed = bufferLength audioBuffer"
    and dur: "real MAX_DURATION < bufferDuration audioBuffer"
  shows "\<exists>clip. normalizedAudio audioBuffer = Some clip \<and>
           channelData clip = [take (MAX_DURATION * sampleRate audioBuffer) (channelData mixed ! 0)] \<and>
           strict_prefix (channelData clip ! 0) (channelData mixed ! 0) \<and>
           sampleRate clip = sampleRate audioBuffer \<and>
           bufferLength clip = MAX_DURATION * sampleRate audioBuffer \<and>
           bufferDuration clip = real MAX_DURATION"
proof -
  from one obtain samples where ch: "channelData mixed = [samples]"
    by (cases "channelData mixed") (auto simp: numberOfChannels_def)
  with valid have slen: "length samples = bufferLength mixed" and rpos: "0 < sampleRate mixed"
    by (auto simp: validAudioBuffer_def)
  from dur rpos have "real (MAX_DURATION * sampleRate mixed) < real (bufferLength mixed)"
    by (simp add: bufferDuration_def rate len pos_less_divide_eq)
  then have lt: "MAX_DURATION * sampleRate mixed < bufferLength mixed"
    by (simp only: of_nat_less_iff)
  let ?n = "MAX_DURATION * sampleRate mixed"
  let ?clip = "\<lparr>sampleRate = sampleRate mixed, channelData = [take ?n (channelData mixed ! 0)]\<rparr>"
  have "truncateToMax mixed = Some ?clip"
    by (rule truncateToMax_long[OF valid one lt])
  with mix have norm: "normalizedAudio audioBuffer = Some ?clip"
    by (simp add: normalizedAudio_def)
  have tk: "length (take ?n samples) = ?n"
    using lt slen by simp
  have pre: "strict_prefix (take ?n samples) samples"
    unfolding strict_prefix_def using tk lt slen by (metis take_is_prefix nat_neq_iff)
  have blen: "bufferLength ?clip = ?n"
    using tk ch by (simp add: bufferLength_def)
  have bdur: "bufferDuration ?clip = real MAX_DURATION"
    using rpos unfolding bufferDuration_def blen by simp
  show ?thesis
  proof (intro exI conjI)
    show "normalizedAudio audioBuffer = Some ?clip" by (rule norm)
    show "channelData ?clip = [take (MAX_DURATION * sampleRate audioBuffer) (channelData mixed ! 0)]"
      by (simp add: rate)
    show "strict_prefix (channelData ?clip ! 0) (channelData mixed ! 0)"
      using pre ch by simp
    show "sampleRate ?clip = sampleRate audioBuffer" by (simp add: rate)
    show "bufferLength ?clip = MAX_DURATION * sampleRate audioBuffer"
      using blen by (simp only: rate)
    show "bufferDuration ?clip = real MAX_DURATION" by (rule bdur)
  qed
qed

lemma audioBufferToWav_mono:
  assumes "numberOfChannels clip = 1"
  shows "audioBufferToWav clip =
           Some (btoa (map (\<lambda>b. char_of (unat b))
                   (wavBuffer 1 (sampleRate clip) (channelData clip ! 0))))"
proof -
  from assms have "wavSamples clip = Some (channelData clip ! 0)"
    by (simp add: wavSamples_def getChannelData_def)
  from audioBufferToWav_text[OF this] assms show ?thesis by simp
qed

lemma normalizedAudio_valid:
  assumes "validAudioBuffer audioBuffer"
  shows "\<exists>mixed clip.
     mixToMono audioBuffer = Some mixed \<and> validAudioBuffer mixed \<and>
     numberOfChannels mixed = 1 \<and>
     sampleRate mixed = sampleRate audioBuffer \<and>
     bufferLength mixed = bufferLength audioBuffer \<and>
     normalizedAudio audioBuffer = Some clip \<and> numberOfChannels clip = 1 \<and>
     sampleRate clip = sampleRate audioBuffer \<and>
     (real MAX_DURATION < bufferDuration audioBuffer \<longrightarrow>
        channelData clip = [take (MAX_DURATION * sampleRate audioBuffer) (channelData mixed ! 0)] \<and>
        strict_prefix (channelData clip ! 0) (channelData mixed ! 0) \<and>
        bufferLength clip = MAX_DURATION * sampleRate audioBuffer \<and>
        bufferDuration clip = real MAX_DURATION) \<and>
     (bufferDuration audioBuffer \<le> real MAX_DURATION \<longrightarrow> clip = mixed)"
proof -
  from mixToMono_valid[OF assms] obtain mixed where
    mix: "mixToMono audioBuffer = Some mixed" and valid: "validAudioBuffer mixed" and
    one: "numberOfChannels mixed = 1" and rate: "sampleRate mixed = sampleRate audioBuffer" and
    len: "bufferLength mixed = bufferLength audioBuffer"
    by (elim exE conjE)
  have dur: "bufferDuration mixed = bufferDuration audioBuffer"
    by (simp add: bufferDuration_def rate len)
  show ?thesis
  proof (cases "real MAX_DURATION < bufferDuration audioBuffer")
    case True
    from normalized_long[OF valid one mix rate len True] obtain clip where
      c: "normalizedAudio audioBuffer = Some clip"
         "channelData clip = [take (MAX_DURATION * sampleRate audioBuffer) (channelData mixed ! 0)]"
         "strict_prefix (channelData clip ! 0) (channelData mixed ! 0)"
         "sampleRate clip = sampleRate audioBuffer"
         "bufferLength clip = MAX_DURATION * sampleRate audioBuffer"
         "bufferDuration clip = real MAX_DURATION"
      by (elim exE conjE)
    from c(2) have cone: "numberOfChannels clip = 1" by (simp add: numberOfChannels_def)
    from True have nle: "\<not> bufferDuration audioBuffer \<le> real MAX_DURATION" by simp
    show ?thesis
    proof (intro exI conjI)
      show "mixToMono audioBuffer = Some mixed" by (rule mix)
      show "validAudioBuffer mixed" by (rule valid)
      show "numberOfChannels mixed = 1" by (rule one)
      show "sampleRate mixed = sampleRate audioBuffer" by (rule rate)
      show "bufferLength mixed = bufferLength audioBuffer" by (rule len)
      show "normalizedAudio audioBuffer = Some clip" by (rule c(1))
      show "numberOfChannels clip = 1" by (rule cone)
      show "sampleRate clip = sampleRate audioBuffer" by (rule c(4))
      show "real MAX_DURATION < bufferDuration audioBuffer \<longrightarrow>
        channelData clip = [take (MAX_DURATION * sampleRate audioBuffer) (channelData mixed ! 0)] \<and>
        strict_prefix (channelData clip ! 0) (channelData mixed ! 0) \<and>
        bufferLength clip = MAX_DURATION * sampleRate audioBuffer \<and>
        bufferDuration clip = real MAX_DURATION"
        using c by simp
      show "bufferDuration audioBuffer \<le> real MAX_DURATION \<longrightarrow> clip = mixed"
        using nle by simp
    qed
  next
    case False
    then have short: "normalizedAudio audioBuffer = Some mixed"
      using mix dur by (simp add: normalizedAudio_def truncateToMax_def)
    show ?thesis
    proof (intro exI conjI)
      show "mixToMono audioBuffer = Some mixed" by (rule mix)
      show "validAudioBuffer mixed" by (rule valid)
      show "numberOfChannels mixed = 1" by (rule one)
      show "sampleRate mixed = sampleRate audioBuffer" by (rule rate)
      show "bufferLength mixed = bufferLength audioBuffer" by (rule len)
      show "normalizedAudio audioBuffer = Some mixed" by (rule short)
      show "numberOfChannels mixed = 1" by (rule one)
      show "sampleRate mixed = sampleRate audioBuffer" by (rule rate)
      show "real MAX_DURATION < bufferDuration audioBuffer \<longrightarrow>
        channelData mixed = [take (MAX_DURATION * sampleRate audioBuffer) (channelData mixed ! 0)] \<and>
        strict_prefix (channelData mixed ! 0) (channelData mixed ! 0) \<and>
        bufferLength mixed = MAX_DURATION * sampleRate audioBuffer \<and>
        bufferDuration mixed = real MAX_DURATION"
        using False by simp
      show "bufferDuration audioBuffer \<le> real MAX_DURATION \<longrightarrow> mixed = mixed"
        by simp
    qed
  qed
qed

text \<open>
  Claim C3, as stated, fails: the mean is computed in double arithmetic and stored into a
  \<^verbatim>\<open>Float32Array\<close>, which rounds it. For the two float32 samples \<open>1 / 2\<close> and
  \<open>1 / 2 + 1 / 2 ^ 24\<close> the down-mix is \<open>1 / 2\<close>, while their arithmetic mean is
  \<open>1 / 2 + 1 / 2 ^ 25\<close>.
\<close>

theorem audio_normalizer_counterexample:
  "validAudioBuffer roundingBuffer \<and> numberOfChannels roundingBuffer = 2 \<and>
   toFloat32 (1 / 2) = 1 / 2 \<and> toFloat32 (8388609 / 16777216) = 8388609 / 16777216 \<and>
   mixToMono roundingBuffer = Some \<lparr>sampleRate = 16000, channelData = [[1 / 2]]\<rparr> \<and>
   channelMean roundingBuffer 0 = 16777217 / 33554432"
proof -
  have a: "toFloat32 (1 / 2) = 1 / 2"
    by (rule toFloat32_dyadic[of _ 1 "- 1"]) simp_all
  have b: "toFloat32 (8388609 / 16777216) = 8388609 / 16777216"
    by (rule toFloat32_dyadic[of _ 8388609 "- 24"]) simp_all
  have s1: "toDouble (1 / 2) = 1 / 2"
    by (rule toDouble_dyadic[of _ 1 "- 1"]) simp_all
  have s2: "toDouble (16777217 / 16777216) = 16777217 / 16777216"
    by (rule toDouble_dyadic[of _ 16777217 "- 24"]) simp_all
  have s3: "toDouble (16777217 / 33554432) = 16777217 / 33554432"
    by (rule toDouble_dyadic[of _ 16777217 "- 25"]) simp_all
  have sum: "channelSum roundingBuffer 2 0 = 16777217 / 16777216"
    by (simp add: channelSum_def roundingBuffer_def upt_conv_Cons s1 s2)
  have n: "numberOfChannels roundingBuffer = 2" and len: "bufferLength roundingBuffer = 1"
    and rate: "sampleRate roundingBuffer = 16000"
    by (simp_all add: roundingBuffer_def numberOfChannels_def bufferLength_def)
  have mix: "mixToMono roundingBuffer = Some \<lparr>sampleRate = 16000, channelData = [[1 / 2]]\<rparr>"
    by (simp add: mixToMono_def Let_def createBuffer_def n len rate sum s3 toFloat32_half)
  have mean: "channelMean roundingBuffer 0 = 16777217 / 33554432"
    by (simp add: channelMean_def roundingBuffer_def numberOfChannels_def lessThan_Suc
          numeral_2_eq_2)
  have v: "validAudioBuffer roundingBuffer \<and> numberOfChannels roundingBuffer = 2"
    by (simp add: roundingBuffer_def validAudioBuffer_def bufferLength_def numberOfChannels_def)
  from v a b mix mean show ?thesis by simp
qed

text \<open>
  Claim C3, amended. For every decoded audio buffer: the down-mix has one channel, the
  sample rate and the length of the source; with more than one channel its sample \<open>i\<close>
  is the sum over all channels of their sample \<open>i\<close>, accumulated in double arithmetic,
  divided by the channel count and rounded to float32 (no channel is selected or left
  out), and it is the arithmetic mean itself whenever no step of that computation
  rounds; with one channel it is the source. When the decoded duration exceeds
  \<open>MAX_DURATION\<close> (120 s), the buffer handed to the serializer is the strict prefix of the
  down-mix of exactly \<open>MAX_DURATION * sampleRate\<close> samples, at the same sample rate, so
  that it lasts exactly \<open>MAX_DURATION\<close> seconds; otherwise it is the down-mix itself. The
  extractor returns the base64 text of the one-channel WAV file of that buffer.
\<close>

theorem audio_normalizer:
  assumes "validAudioBuffer audioBuffer"
  shows "\<exists>mixed clip.
     mixToMono audioBuffer = Some mixed \<and> numberOfChannels mixed = 1 \<and>
     sampleRate mixed = sampleRate audioBuffer \<and>
     bufferLength mixed = bufferLength audioBuffer \<and>
     (1 < numberOfChannels audioBuffer \<longrightarrow>
        (\<forall>i < bufferLength audioBuffer.
           channelData mixed ! 0 ! i =
             toFloat32 (toDouble
               (channelSum audioBuffer (numberOfChannels audioBuffer) i
                  / real (numberOfChannels audioBuffer))) \<and>
           (unrounded audioBuffer i \<longrightarrow>
              channelData mixed ! 0 ! i = channelMean audioBuffer i))) \<and>
     (numberOfChannels audioBuffer = 1 \<longrightarrow> mixed = audioBuffer) \<and>
     normalizedAudio audioBuffer = Some clip \<and>
     (real MAX_DURATION < bufferDuration audioBuffer \<longrightarrow>
        channelData clip = [take (MAX_DURATION * sampleRate audioBuffer) (channelData mixed ! 0)] \<and>
        strict_prefix (channelData clip ! 0) (channelData mixed ! 0) \<and>
        sampleRate clip = sampleRate audioBuffer \<and>
        bufferLength clip = MAX_DURATION * sampleRate audioBuffer \<and>
        bufferDuration clip = real MAX_DURATION) \<and>
     (bufferDuration audioBuffer \<le> real MAX_DURATION \<longrightarrow> clip = mixed) \<and>
     extractAudioFromVideo (Some audioBuffer) =
       Some (btoa (map (\<lambda>b. char_of (unat b))
               (wavBuffer 1 (sampleRate audioBuffer) (channelData clip ! 0))))"
proof -
  from normalizedAudio_valid[OF assms] obtain mixed clip where
    mix: "mixToMono audioBuffer = Some mixed" and
    one: "numberOfChannels mixed = 1" and rate: "sampleRate mixed = sampleRate audioBuffer" and
    len: "bufferLength mixed = bufferLength audioBuffer" and
    norm: "normalizedAudio audioBuffer = Some clip" and cone: "numberOfChannels clip = 1" and
    crate: "sampleRate clip = sampleRate audioBuffer" and
    long: "real MAX_DURATION < bufferDuration audioBuffer \<longrightarrow>
        channelData clip = [take (MAX_DURATION * sampleRate audioBuffer) (channelData mixed ! 0)] \<and>
        strict_prefix (channelData clip ! 0) (channelData mixed ! 0) \<and>
        bufferLength clip = MAX_DURATION * sampleRate audioBuffer \<and>
        bufferDuration clip = real MAX_DURATION" and
    short: "bufferDuration audioBuffer \<le> real MAX_DURATION \<longrightarrow> clip = mixed"
    by (elim exE conjE)
  from mixToMono_valid[OF assms] mix have
    mean: "1 < numberOfChannels audioBuffer \<longrightarrow>
              channelData mixed =
                [map (\<lambda>i. toFloat32 (toDouble
                        (channelSum audioBuffer (numberOfChannels audioBuffer) i
                           / real (numberOfChannels audioBuffer))))
                   [0..<bufferLength audioBuffer]]" and
    same: "numberOfChannels audioBuffer = 1 \<longrightarrow> mixed = audioBuffer"
    by simp_all
  have means: "\<forall>i < bufferLength audioBuffer.
           channelData mixed ! 0 ! i =
             toFloat32 (toDouble
               (channelSum audioBuffer (numberOfChannels audioBuffer) i
                  / real (numberOfChannels audioBuffer))) \<and>
           (unrounded audioBuffer i \<longrightarrow>
              channelData mixed ! 0 ! i = channelMean audioBuffer i)"
    if "1 < numberOfChannels audioBuffer"
  proof (intro allI impI conjI)
    fix i assume i: "i < bufferLength audioBuffer"
    from mean that have "channelData mixed ! 0 =
          map (\<lambda>i. toFloat32 (toDouble
                        (channelSum audioBuffer (numberOfChannels audioBuffer) i
                           / real (numberOfChannels audioBuffer))))
                   [0..<bufferLength audioBuffer]"
      by simp
    with i show s: "channelData mixed ! 0 ! i =
             toFloat32 (toDouble
               (channelSum audioBuffer (numberOfChannels audioBuffer) i
                  / real (numberOfChannels audioBuffer)))"
      by simp
    assume "unrounded audioBuffer i"
    then show "channelData mixed ! 0 ! i = channelMean audioBuffer i"
      unfolding s by (rule mixed_sample_unrounded)
  qed
  have wav: "extractAudioFromVideo (Some audioBuffer) =
       Some (btoa (map (\<lambda>b. char_of (unat b))
               (wavBuffer 1 (sampleRate audioBuffer) (channelData clip ! 0))))"
    using audioBufferToWav_mono[OF cone] norm
    by (simp add: extractAudioFromVideo_def crate)
  show ?thesis
  proof (intro exI conjI)
    show "mixToMono audioBuffer = Some mixed" by (rule mix)
    show "numberOfChannels mixed = 1" by (rule one)
    show "sampleRate mixed = sampleRate audioBuffer" by (rule rate)
    show "bufferLength mixed = bufferLength audioBuffer" by (rule len)
    show "1 < numberOfChannels audioBuffer \<longrightarrow>
        (\<forall>i < bufferLength audioBuffer.
           channelData mixed ! 0 ! i =
             toFloat32 (toDouble
               (channelSum audioBuffer (numberOfChannels audioBuffer) i
                  / real (numberOfChannels audioBuffer))) \<and>
           (unrounded audioBuffer i \<longrightarrow>
              channelData mixed ! 0 ! i = channelMean audioBuffer i))"
      using means by (rule impI)
    show "numberOfChannels audioBuffer = 1 \<longrightarrow> mixed = audioBuffer" by (rule same)
    show "normalizedAudio audioBuffer = Some clip" by (rule norm)
    show "real MAX_DURATION < bufferDuration audioBuffer \<longrightarrow>
        channelData clip = [take (MAX_DURATION * sampleRate audioBuffer) (channelData mixed ! 0)] \<and>
        strict_prefix (channelData clip ! 0) (channelData mixed ! 0) \<and>
        sampleRate clip = sampleRate audioBuffer \<and>
        bufferLength clip = MAX_DURATION * sampleRate audioBuffer \<and>
        bufferDuration clip = real MAX_DURATION"
      using long crate by blast
    show "bufferDuration audioBuffer \<le> real MAX_DURATION \<longrightarrow> clip = mixed" by (rule short)
    show "extractAudioFromVideo (Some audioBuffer) =
       Some (btoa (map (\<lambda>b. char_of (unat b))
               (wavBuffer 1 (sampleRate audioBuffer) (channelData clip ! 0))))"
      by (rule wav)
  qed
qed

text \<open>
  In a stereo buffer whose samples at index 2 are \<open>1 / 2\<close> and \<open>1 / 4\<close> nothing rounds
  and the down-mix is their mean \<open>3 / 8\<close>; 121 seconds of audio at 1 Hz are cut to 120
  samples at 1 Hz, and the extractor returns the WAV text of those samples.
\<close>

theorem audio_normalizer_witness:
  "unrounded stereoBuffer 2 \<and> channelMean stereoBuffer 2 = 3 / 8 \<and>
   (\<exists>mixed. mixToMono stereoBuffer = Some mixed \<and> channelData mixed ! 0 ! 2 = 3 / 8) \<and>
   map_option bufferLength (normalizedAudio longBuffer) = Some 120 \<and>
   map_option sampleRate (normalizedAudio longBuffer) = Some 1 \<and>
   extractAudioFromVideo (Some longBuffer) =
     Some (btoa (map (\<lambda>b. char_of (unat b)) (wavBuffer 1 1 (replicate 120 (1 / 2)))))"
proof -
  have v1: "validAudioBuffer stereoBuffer"
    by (simp add: stereoBuffer_def validAudioBuffer_def bufferLength_def)
  have v2: "validAudioBuffer longBuffer"
    by (simp add: longBuffer_def validAudioBuffer_def bufferLength_def)
  have n1: "1 < numberOfChannels stereoBuffer" "2 < bufferLength stereoBuffer"
    by (simp_all add: stereoBuffer_def numberOfChannels_def bufferLength_def)
  have d2: "real MAX_DURATION < bufferDuration longBuffer"
    by (simp add: longBuffer_def bufferDuration_def bufferLength_def MAX_DURATION_def)
  have mean: "channelMean stereoBuffer 2 = 3 / 8"
    by (simp add: channelMean_def stereoBuffer_def numberOfChannels_def lessThan_Suc
          numeral_2_eq_2)
  have sums: "(\<Sum>c<k. channelData stereoBuffer ! c ! 2) =
                (if k = 0 then 0 else if k = 1 then 1 / 2 else 3 / 4)" if "k \<le> 2" for k
  proof -
    from that have "k = 0 \<or> k = 1 \<or> k = 2" by auto
    then show ?thesis
      by (auto simp: stereoBuffer_def lessThan_Suc numeral_2_eq_2)
  qed
  have d0: "toDouble 0 = 0" by (simp add: toDouble_def roundToFormat_def)
  have d1: "toDouble (1 / 2) = 1 / 2"
    by (rule toDouble_dyadic[of _ 1 "- 1"]) simp_all
  have d3: "toDouble (3 / 4) = 3 / 4"
    by (rule toDouble_dyadic[of _ 3 "- 2"]) simp_all
  have d4: "toDouble (3 / 8) = 3 / 8"
    by (rule toDouble_dyadic[of _ 3 "- 3"]) simp_all
  have f4: "toFloat32 (3 / 8) = 3 / 8"
    by (rule toFloat32_dyadic[of _ 3 "- 3"]) simp_all
  have partial: "\<forall>k \<le> numberOfChannels stereoBuffer.
         toDouble (\<Sum>c<k. channelData stereoBuffer ! c ! 2) =
           (\<Sum>c<k. channelData stereoBuffer ! c ! 2)"
  proof (intro allI impI)
    fix k assume "k \<le> numberOfChannels stereoBuffer"
    then have k: "k \<le> 2" by (simp add: stereoBuffer_def numberOfChannels_def)
    show "toDouble (\<Sum>c<k. channelData stereoBuffer ! c ! 2) =
           (\<Sum>c<k. channelData stereoBuffer ! c ! 2)"
      unfolding sums[OF k] by (simp add: d0 d1 d3)
  qed
  have u: "unrounded stereoBuffer 2"
    unfolding unrounded_def mean using partial by (simp add: d4 f4)
  from audio_normalizer[OF v1] n1 u mean
  have s1: "\<exists>mixed. mixToMono stereoBuffer = Some mixed \<and> channelData mixed ! 0 ! 2 = 3 / 8"
    by fastforce
  from audio_normalizer[OF v2] d2 obtain mixed clip where
    c: "mixToMono longBuffer = Some mixed" "numberOfChannels longBuffer = 1 \<longrightarrow> mixed = longBuffer"
    "normalizedAudio longBuffer = Some clip" "sampleRate clip = sampleRate longBuffer"
    "bufferLength clip = MAX_DURATION * sampleRate longBuffer"
    "channelData clip = [take (MAX_DURATION * sampleRate longBuffer) (channelData mixed ! 0)]"
    "extractAudioFromVideo (Some longBuffer) =
       Some (btoa (map (\<lambda>b. char_of (unat b))
               (wavBuffer 1 (sampleRate longBuffer) (channelData clip ! 0))))"
    by blast
  from c(2) have m: "mixed = longBuffer" by (simp add: longBuffer_def numberOfChannels_def)
  have tk: "take 120 (replicate 121 (1 / 2 :: real)) = replicate 120 (1 / 2)"
    by simp
  from c have "map_option bufferLength (normalizedAudio longBuffer) = Some 120"
    "map_option sampleRate (normalizedAudio longBuffer) = Some 1"
    by (simp_all add: longBuffer_def MAX_DURATION_def)
  moreover from c(6,7) have "extractAudioFromVideo (Some longBuffer) =
     Some (btoa (map (\<lambda>b. char_of (unat b)) (wavBuffer 1 1 (replicate 120 (1 / 2)))))"
    unfolding m by (simp add: longBuffer_def MAX_DURATION_def tk)
  ultimately show ?thesis using u mean s1 by simp
qed

section \<open>Properties of the analysis step\<close>








lemma prepareInputs_no_audio:
  assumes "decodeAudioData env file = None"
    and "fst (extractVideoFrames (openVideo env file) FRAME_COUNT) = Inr frames"
  shows "prepareInputs env file = Inr (frames, None)"
  using assms
  by (simp add: prepareInputs_def extractAudioFromVideo_def audioDataOf_def truthy_def)

lemma prepareInputs_no_frames:
  assumes "fst (extractVideoFrames (openVideo env file) FRAME_COUNT) = Inl message"
  shows "prepareInputs env file = Inl (OtherError (Literal message))"
  using assms by (simp add: prepareInputs_def Let_def)

text \<open>
  Claim C7. When decoding the audio fails, the extractor returns \<^verbatim>\<open>null\<close> (\<open>None\<close>);
  whatever the audio extraction yields, the preparation succeeds when the frame
  extraction does. With undecodable audio it yields the frames with no audio, and \<^verbatim>\<open>handleSubmit\<close> goes on to
  the analysis request with the frames alone. When the frame extraction fails, the
  preparation fails with that error, no analysis is requested, and \<^verbatim>\<open>handleSubmit\<close>
  ends with the error reported and no analysis result.
\<close>

theorem audio_failure_is_local:
  "extractAudioFromVideo None = None \<and>
   (\<forall>frames. fst (extractVideoFrames (openVideo env file) FRAME_COUNT) = Inr frames \<longrightarrow>
      (\<exists>audioData. prepareInputs env file = Inr (frames, audioData))) \<and>
   (decodeAudioData env file = None \<longrightarrow>
      (\<forall>frames. fst (extractVideoFrames (openVideo env file) FRAME_COUNT) = Inr frames \<longrightarrow>
         prepareInputs env file = Inr (frames, None) \<and>
         tryAnalysis env st file = requestAnalysis env st frames None)) \<and>
   (\<forall>message. fst (extractVideoFrames (openVideo env file) FRAME_COUNT) = Inl message \<longrightarrow>
      prepareInputs env file = Inl (OtherError (Literal message)) \<and>
      tryAnalysis env st file = Inl (OtherError (Literal message)) \<and>
      (videoFile st = Some file \<and> \<not> isLoading st \<longrightarrow>
         analysisResult (handleSubmit env st) = None \<and>
         error (handleSubmit env st) = Some (reportError (OtherError (Literal message)))))"
proof (intro conjI impI allI)
  show "extractAudioFromVideo None = None"
    by (simp add: extractAudioFromVideo_def)
next
  fix frames
  assume "fst (extractVideoFrames (openVideo env file) FRAME_COUNT) = Inr frames"
  then show "\<exists>audioData. prepareInputs env file = Inr (frames, audioData)"
    by (simp add: prepareInputs_def Let_def)
next
  fix frames
  assume a: "decodeAudioData env file = None"
    "fst (extractVideoFrames (openVideo env file) FRAME_COUNT) = Inr frames"
  show "prepareInputs env file = Inr (frames, None)"
    by (rule prepareInputs_no_audio[OF a])
  then show "tryAnalysis env st file = requestAnalysis env st frames None"
    by (simp add: tryAnalysis_def)
next
  fix message
  assume a: "fst (extractVideoFrames (openVideo env file) FRAME_COUNT) = Inl message"
  show p: "prepareInputs env file = Inl (OtherError (Literal message))"
    by (rule prepareInputs_no_frames[OF a])
  then show t: "tryAnalysis env st file = Inl (OtherError (Literal message))"
    by (simp add: tryAnalysis_def)
  assume "videoFile st = Some file \<and> \<not> isLoading st"
  with t show "analysisResult (handleSubmit env st) = None"
    "error (handleSubmit env st) = Some (reportError (OtherError (Literal message)))"
    by (simp_all add: handleSubmit_def)
qed

text \<open>
  With undecodable audio the eight usable frames are prepared without audio; with a
  video element that reports a decode error the preparation fails.
\<close>

theorem audio_failure_is_local_witness:
  "(\<exists>frames. prepareInputs silentEnv demoFile = Inr (frames, None) \<and> length frames = 8) \<and>
   prepareInputs brokenEnv demoFile =
     Inl (OtherError (Literal
       ''The video could not be decoded, possibly due to corruption or unsupported format.'')) \<and>
   analysisResult (handleSubmit brokenEnv readyState) = None"
proof -
  have ok: "\<exists>frames. fst (extractVideoFrames (openVideo silentEnv demoFile) FRAME_COUNT) = Inr frames \<and>
              length frames = 8"
    by (simp add: silentEnv_def opensDemoVideo_def extractVideoFrames_def demoVideo_def
          FRAME_COUNT_def payload_def)
  have bad: "fst (extractVideoFrames (openVideo brokenEnv demoFile) FRAME_COUNT) =
      Inl ''The video could not be decoded, possibly due to corruption or unsupported format.''"
    by (simp add: brokenEnv_def silentEnv_def opensBrokenVideo_def brokenVideo_def
          extractVideoFrames_def demoVideo_def)
  have dec: "decodeAudioData silentEnv demoFile = None"
    by (simp add: silentEnv_def undecodable_def)
  have sel: "videoFile readyState = Some demoFile \<and> \<not> isLoading readyState"
    by (simp add: readyState_def demoFile_def)
  from ok dec bad sel
    audio_failure_is_local[of silentEnv demoFile readyState]
    audio_failure_is_local[of brokenEnv demoFile readyState]
  show ?thesis by auto
qed

section \<open>Properties of the SRT parser\<close>

lemma parseBlock_append: "parseBlock block captions = captions @ parseBlock block []"
  by (simp add: parseBlock_def Let_def split: option.splits prod.splits)

lemma fold_parseBlock:
  "fold parseBlock blocks captions = captions @ concat (map (\<lambda>b. parseBlock b []) blocks)"
proof (induction blocks arbitrary: captions)
  case Nil
  show ?case by simp
next
  case (Cons b bs)
  show ?case
    by (simp add: Cons.IH) (subst parseBlock_append, simp)
qed

lemma parseBlock_unmatched:
  "timeMatch (split [CHR 0x0A] block ! 1) = None \<Longrightarrow> parseBlock block captions = captions"
  by (simp add: parseBlock_def Let_def)

lemma parseSrt_skips:
  assumes "srtBlocks srtText = before @ block # after"
    and "timeMatch (split [CHR 0x0A] block ! 1) = None"
  shows "parseSrt srtText = fold parseBlock (before @ after) []"
  using assms by (simp add: parseSrt_def parseBlock_unmatched)

lemma digit_not_separator: "isDigit c \<Longrightarrow> \<not> isTimeSeparator c"
  by (auto simp: isDigit_def isTimeSeparator_def)

lemma digit_not_space: "isDigit c \<Longrightarrow> \<not> isSpace c"
  by (auto simp: isDigit_def isSpace_def)

lemma digit_not_sign: "isDigit c \<Longrightarrow> c \<noteq> CHR ''-'' \<and> c \<noteq> CHR ''+''"
  by (auto simp: isDigit_def)

lemma parseInt_digits2:
  "isDigit a \<Longrightarrow> isDigit b \<Longrightarrow> parseInt [a, b] = Num (real (decimalValue [a, b]))"
  by (simp add: parseInt_def Let_def digit_not_space digit_not_sign)

lemma parseInt_digits3:
  "isDigit a \<Longrightarrow> isDigit b \<Longrightarrow> isDigit c \<Longrightarrow>
   parseInt [a, b, c] = Num (real (decimalValue [a, b, c]))"
  by (simp add: parseInt_def Let_def digit_not_space digit_not_sign)

lemma isTimestamp_shape:
  assumes "matchTimestamp s = Some (t, rest)"
  shows "\<exists>h1 h2 m1 m2 s1 s2 sep f1 f2 f3.
           t = [h1, h2, CHR '':'', m1, m2, CHR '':'', s1, s2, sep, f1, f2, f3] \<and>
           s = t @ rest \<and>
           isDigit h1 \<and> isDigit h2 \<and> isDigit m1 \<and> isDigit m2 \<and> isDigit s1 \<and> isDigit s2 \<and>
           (sep = CHR '','' \<or> sep = CHR ''.'') \<and> isDigit f1 \<and> isDigit f2 \<and> isDigit f3"
  using assms
  by (cases s rule: matchTimestamp.cases) (auto split: if_splits)

lemma matchTimestamp_isTimestamp:
  "matchTimestamp s = Some (t, rest) \<Longrightarrow> isTimestamp t"
  by (drule isTimestamp_shape) (auto simp: isTimestamp_def)

lemma timeToSeconds_timestamp:
  assumes "isTimestamp t"
  shows "timeToSeconds t = Num (timestampSeconds t)"
proof -
  from assms have "matchTimestamp t = Some (t, [])" by (simp add: isTimestamp_def)
  from isTimestamp_shape[OF this] obtain h1 h2 m1 m2 s1 s2 sep f1 f2 f3 where
    t: "t = [h1, h2, CHR '':'', m1, m2, CHR '':'', s1, s2, sep, f1, f2, f3]" and
    d: "isDigit h1" "isDigit h2" "isDigit m1" "isDigit m2" "isDigit s1" "isDigit s2"
       "isDigit f1" "isDigit f2" "isDigit f3" and
    sep: "sep = CHR '','' \<or> sep = CHR ''.''"
    by blast
  have c: "isTimeSeparator (CHR '':'')" and s: "isTimeSeparator sep"
    using sep by (auto simp: isTimeSeparator_def)
  have parts: "splitClass isTimeSeparator t = [[h1, h2], [m1, m2], [s1, s2], [f1, f2, f3]]"
    unfolding t splitClass_def using d c s by (simp add: digit_not_separator)
  show ?thesis
    unfolding timeToSeconds_def parts Let_def
    using d by (simp add: parseInt_digits2 parseInt_digits3 timestampSeconds_def t)
qed

lemma timestampSeconds_nonneg: "0 \<le> timestampSeconds t"
  by (simp add: timestampSeconds_def)

lemma matchTimeLineAt_timestamps:
  "matchTimeLineAt s = Some (first, second) \<Longrightarrow> isTimestamp first \<and> isTimestamp second"
  by (auto simp: matchTimeLineAt_def Let_def matchTimestamp_isTimestamp
           split: option.splits prod.splits if_splits)

lemma timeMatch_timestamps:
  "timeMatch line = Some (first, second) \<Longrightarrow> isTimestamp first \<and> isTimestamp second"
proof (induction line)
  case Nil
  then show ?case by simp
next
  case (Cons c cs)
  then show ?case
    by (auto simp: matchTimeLineAt_timestamps split: option.splits)
qed

lemma isTimestamp_head:
  assumes "isTimestamp t"
  shows "\<exists>x xs. t = x # xs \<and> isDigit x"
proof -
  from assms have "matchTimestamp t = Some (t, [])" by (simp add: isTimestamp_def)
  from isTimestamp_shape[OF this] obtain h1 r where "t = h1 # r" "isDigit h1" by blast
  then show ?thesis by blast
qed

lemma matchTimestamp_append:
  assumes "isTimestamp t"
  shows "matchTimestamp (t @ rest) = Some (t, rest)"
proof -
  from assms have "matchTimestamp t = Some (t, [])" by (simp add: isTimestamp_def)
  from isTimestamp_shape[OF this] obtain h1 h2 m1 m2 s1 s2 sep f1 f2 f3 where
    f: "t = [h1, h2, CHR '':'', m1, m2, CHR '':'', s1, s2, sep, f1, f2, f3]" and
    d: "isDigit h1" "isDigit h2" "isDigit m1" "isDigit m2" "isDigit s1" "isDigit s2"
       "isDigit f1" "isDigit f2" "isDigit f3" and
    sep: "sep = CHR '','' \<or> sep = CHR ''.''"
    by blast
  show ?thesis unfolding f using d sep by simp
qed

lemma matchTimeLineAt_well_formed:
  assumes "isTimestamp first" "isTimestamp second"
  shows "matchTimeLineAt (first @ '' --> '' @ second) = Some (first, second)"
proof -
  from isTimestamp_head[OF assms(2)] obtain x xs where x: "second = x # xs" "isDigit x"
    by blast
  have m1: "matchTimestamp (first @ '' --> '' @ second) = Some (first, '' --> '' @ second)"
    by (rule matchTimestamp_append[OF assms(1)])
  have m2: "matchTimestamp (x # xs) = Some (x # xs, [])"
    using assms(2) by (simp add: isTimestamp_def x)
  have nx: "\<not> isSpace x" by (rule digit_not_space[OF x(2)])
  have sp: "dropWhile isSpace ('' --> '' @ x # xs) = ''--> '' @ x # xs"
    by (simp add: isSpace_def)
  have sp2: "dropWhile isSpace (drop 3 (''--> '' @ x # xs)) = x # xs"
    using nx by (simp add: isSpace_def)
  have "matchTimeLineAt (first @ '' --> '' @ x # xs) = Some (first, x # xs)"
    unfolding matchTimeLineAt_def matchTimestamp_append[OF assms(1)] prod.case option.case Let_def sp sp2 m2
    by simp
  then show ?thesis by (simp add: x)
qed

lemma timeMatch_well_formed:
  assumes "isTimestamp first" "isTimestamp second"
  shows "timeMatch (first @ '' --> '' @ second) = Some (first, second)"
proof -
  from isTimestamp_head[OF assms(1)] obtain x xs where x: "first = x # xs" by blast
  from matchTimeLineAt_well_formed[OF assms]
  have "matchTimeLineAt (x # xs @ '' --> '' @ second) = Some (first, second)"
    unfolding x by simp
  then show ?thesis unfolding x by (simp del: matchTimestamp.simps)
qed

lemma isTimestamp_digits:
  assumes "isDigit h1" "isDigit h2" "isDigit m1" "isDigit m2" "isDigit s1" "isDigit s2"
    "isDigit f1" "isDigit f2" "isDigit f3" "sep = CHR '','' \<or> sep = CHR ''.''"
  shows "isTimestamp [h1, h2, CHR '':'', m1, m2, CHR '':'', s1, s2, sep, f1, f2, f3]"
    and "timestampSeconds [h1, h2, CHR '':'', m1, m2, CHR '':'', s1, s2, sep, f1, f2, f3] =
           real (10 * digitValue h1 + digitValue h2) * 3600 +
           real (10 * digitValue m1 + digitValue m2) * 60 +
           real (10 * digitValue s1 + digitValue s2) +
           real (100 * digitValue f1 + 10 * digitValue f2 + digitValue f3) / 1000"
  using assms by (simp_all add: isTimestamp_def timestampSeconds_def decimalValue_def)

lemma parseBlock_caption:
  assumes "trim block \<noteq> []"
    and "split [CHR 0x0A] block = index # line # rest" and "rest \<noteq> []"
    and "timeMatch line = Some (first, second)"
    and "trim (join '' '' rest) \<noteq> []"
  shows "parseBlock block captions =
           captions @ [\<lparr>text' = trim (join '' '' rest), start = Num (timestampSeconds first),
                        end' = Num (timestampSeconds second), fontSize = None, position = None\<rparr>]"
proof -
  from timeMatch_timestamps[OF assms(4)] have
    "timeToSeconds first = Num (timestampSeconds first)"
    "timeToSeconds second = Num (timestampSeconds second)"
    by (simp_all add: timeToSeconds_timestamp)
  moreover from assms(3) have "3 \<le> length (index # line # rest)"
    by (cases rest) simp_all
  ultimately show ?thesis
    using assms(1,2,4,5) by (simp add: parseBlock_def Let_def)
qed

lemma parseBlock_result:
  "parseBlock block [] = [] \<or>
   (\<exists>t first second. t \<noteq> [] \<and> isTimestamp first \<and> isTimestamp second \<and>
      parseBlock block [] =
        [\<lparr>text' = t, start = timeToSeconds first, end' = timeToSeconds second,
          fontSize = None, position = None\<rparr>])"
  by (auto simp: parseBlock_def Let_def dest: timeMatch_timestamps split: option.splits)

lemma parseBlock_captions:
  assumes "c \<in> set (parseBlock block [])"
  shows "text' c \<noteq> [] \<and> (\<exists>s e. start c = Num s \<and> end' c = Num e \<and> 0 \<le> s \<and> 0 \<le> e) \<and>
         fontSize c = None \<and> position c = None"
proof -
  from parseBlock_result[of block] assms obtain t first second where
    "t \<noteq> []" "isTimestamp first" "isTimestamp second"
    "c = \<lparr>text' = t, start = timeToSeconds first, end' = timeToSeconds second,
          fontSize = None, position = None\<rparr>"
    by auto
  then show ?thesis
    by (simp add: timeToSeconds_timestamp timestampSeconds_nonneg)
qed

text \<open>
  Claim C5. The parser turns the example of the specification into exactly one caption
  \<open>Hello world\<close> from 1.0 to 2.5 seconds. A block whose timestamp line (its second
  line) fails the pattern adds nothing, and the result is what parsing the other blocks
  alone gives. A block of at least three lines whose timestamp line matches and whose
  text is not blank adds one caption, with the trimmed text and with the two timestamps
  converted to seconds. A timestamp \<^verbatim>\<open>HH:MM:SS,mmm\<close> or \<^verbatim>\<open>HH:MM:SS.mmm\<close> is matched
  on either side of the arrow and converts to \<open>h * 3600 + m * 60 + s + ms / 1000\<close>.
\<close>

theorem srt_parser:
  "parseSrt demoSrt =
     [\<lparr>text' = ''Hello world'', start = Num 1, end' = Num 2.5, fontSize = None,
       position = None\<rparr>] \<and>
   (srtBlocks srtText = before @ block # after \<and> 1 < length (split [CHR 0x0A] block) \<and>
    timeMatch (split [CHR 0x0A] block ! 1) = None \<longrightarrow>
      parseBlock block captions = captions \<and>
      parseSrt srtText = fold parseBlock (before @ after) []) \<and>
   (trim block' \<noteq> [] \<and> split [CHR 0x0A] block' = index # line # rest \<and> rest \<noteq> [] \<and>
    timeMatch line = Some (first, second) \<and> trim (join '' '' rest) \<noteq> [] \<longrightarrow>
      parseBlock block' captions =
        captions @ [\<lparr>text' = trim (join '' '' rest), start = Num (timestampSeconds first),
                     end' = Num (timestampSeconds second), fontSize = None, position = None\<rparr>]) \<and>
   (isDigit h1 \<and> isDigit h2 \<and> isDigit m1 \<and> isDigit m2 \<and> isDigit s1 \<and> isDigit s2 \<and>
    isDigit f1 \<and> isDigit f2 \<and> isDigit f3 \<and> (sep = CHR '','' \<or> sep = CHR ''.'') \<and>
    isTimestamp other \<longrightarrow>
      (let t = [h1, h2, CHR '':'', m1, m2, CHR '':'', s1, s2, sep, f1, f2, f3]
       in timeMatch (t @ '' --> '' @ other) = Some (t, other) \<and>
          timeMatch (other @ '' --> '' @ t) = Some (other, t) \<and>
          timeToSeconds t =
            Num (real (10 * digitValue h1 + digitValue h2) * 3600 +
                 real (10 * digitValue m1 + digitValue m2) * 60 +
                 real (10 * digitValue s1 + digitValue s2) +
                 real (100 * digitValue f1 + 10 * digitValue f2 + digitValue f3) / 1000)))"
proof (intro conjI impI)
  show "parseSrt demoSrt =
     [\<lparr>text' = ''Hello world'', start = Num 1, end' = Num 2.5, fontSize = None,
       position = None\<rparr>]"
    by (simp add: parseSrt_def srtBlocks_def demoSrt_def parseBlock_def trim_def isSpace_def
          split_def matchTimeLineAt_def isDigit_def timeToSeconds_def splitClass_def
          isTimeSeparator_def parseInt_def decimalValue_def digitValue_def Let_def)
next
  assume a: "srtBlocks srtText = before @ block # after \<and> 1 < length (split [CHR 0x0A] block) \<and>
    timeMatch (split [CHR 0x0A] block ! 1) = None"
  then show "parseBlock block captions = captions"
    by (simp add: parseBlock_unmatched)
  from a show "parseSrt srtText = fold parseBlock (before @ after) []"
    by (simp add: parseSrt_skips)
next
  assume "trim block' \<noteq> [] \<and> split [CHR 0x0A] block' = index # line # rest \<and> rest \<noteq> [] \<and>
    timeMatch line = Some (first, second) \<and> trim (join '' '' rest) \<noteq> []"
  then have b: "trim block' \<noteq> []" "split [CHR 0x0A] block' = index # line # rest" "rest \<noteq> []"
    "timeMatch line = Some (first, second)" "trim (join '' '' rest) \<noteq> []"
    by blast+
  show "parseBlock block' captions =
        captions @ [\<lparr>text' = trim (join '' '' rest), start = Num (timestampSeconds first),
                     end' = Num (timestampSeconds second), fontSize = None, position = None\<rparr>]"
    by (rule parseBlock_caption[OF b])
next
  assume a: "isDigit h1 \<and> isDigit h2 \<and> isDigit m1 \<and> isDigit m2 \<and> isDigit s1 \<and> isDigit s2 \<and>
    isDigit f1 \<and> isDigit f2 \<and> isDigit f3 \<and> (sep = CHR '','' \<or> sep = CHR ''.'') \<and>
    isTimestamp other"
  let ?t = "[h1, h2, CHR '':'', m1, m2, CHR '':'', s1, s2, sep, f1, f2, f3]"
  from a have t: "isTimestamp ?t" by (intro isTimestamp_digits(1)) simp_all
  from a have v: "timestampSeconds ?t =
           real (10 * digitValue h1 + digitValue h2) * 3600 +
           real (10 * digitValue m1 + digitValue m2) * 60 +
           real (10 * digitValue s1 + digitValue s2) +
           real (100 * digitValue f1 + 10 * digitValue f2 + digitValue f3) / 1000"
    by (intro isTimestamp_digits(2)) simp_all
  from a have o: "isTimestamp other" by simp
  have "timeMatch (?t @ '' --> '' @ other) = Some (?t, other)"
    by (rule timeMatch_well_formed[OF t o])
  moreover have "timeMatch (other @ '' --> '' @ ?t) = Some (other, ?t)"
    by (rule timeMatch_well_formed[OF o t])
  moreover have "timeToSeconds ?t = Num (timestampSeconds ?t)"
    by (rule timeToSeconds_timestamp[OF t])
  ultimately show "let t = ?t
       in timeMatch (t @ '' --> '' @ other) = Some (t, other) \<and>
          timeMatch (other @ '' --> '' @ t) = Some (other, t) \<and>
          timeToSeconds t =
            Num (real (10 * digitValue h1 + digitValue h2) * 3600 +
                 real (10 * digitValue m1 + digitValue m2) * 60 +
                 real (10 * digitValue s1 + digitValue s2) +
                 real (100 * digitValue f1 + 10 * digitValue f2 + digitValue f3) / 1000)"
    unfolding Let_def v by (intro conjI)
qed

text \<open>
  Claim C9, as stated, fails: for a file whose first block runs from 5 s to 2 s and
  whose second block starts at 1 s, the parser returns the two captions as they stand,
  neither ordered by start time nor with \<open>start < end\<close>.
\<close>

theorem srt_captions_counterexample:
  "parseSrt unorderedSrt =
     [\<lparr>text' = ''late'', start = Num 5, end' = Num 2, fontSize = None, position = None\<rparr>,
      \<lparr>text' = ''early'', start = Num 1, end' = Num 3, fontSize = None, position = None\<rparr>] \<and>
   \<not> orderedByStart (parseSrt unorderedSrt) \<and>
   \<not> list_all startsBeforeEnd (parseSrt unorderedSrt)"
proof -
  have "parseSrt unorderedSrt =
     [\<lparr>text' = ''late'', start = Num 5, end' = Num 2, fontSize = None, position = None\<rparr>,
      \<lparr>text' = ''early'', start = Num 1, end' = Num 3, fontSize = None, position = None\<rparr>]"
    by (simp add: parseSrt_def srtBlocks_def unorderedSrt_def parseBlock_def trim_def isSpace_def
          split_def matchTimeLineAt_def isDigit_def timeToSeconds_def splitClass_def
          isTimeSeparator_def parseInt_def decimalValue_def digitValue_def Let_def)
  then show ?thesis by (simp add: orderedByStart_def startsBeforeEnd_def)
qed

text \<open>
  Claim C9, amended. For every input text, the captions are returned in the order of
  their blocks in the text, and every caption has a text that is not empty, start and
  end times that are finite and not negative, and no style fields.
\<close>

theorem srt_captions:
  "parseSrt srtText = concat (map (\<lambda>b. parseBlock b []) (srtBlocks srtText)) \<and>
   (\<forall>c \<in> set (parseSrt srtText).
      text' c \<noteq> [] \<and> (\<exists>s e. start c = Num s \<and> end' c = Num e \<and> 0 \<le> s \<and> 0 \<le> e) \<and>
      fontSize c = None \<and> position c = None)"
proof
  show order: "parseSrt srtText = concat (map (\<lambda>b. parseBlock b []) (srtBlocks srtText))"
    by (simp add: parseSrt_def fold_parseBlock)
  show "\<forall>c \<in> set (parseSrt srtText).
      text' c \<noteq> [] \<and> (\<exists>s e. start c = Num s \<and> end' c = Num e \<and> 0 \<le> s \<and> 0 \<le> e) \<and>
      fontSize c = None \<and> position c = None"
  proof
    fix c assume "c \<in> set (parseSrt srtText)"
    then obtain b where "c \<in> set (parseBlock b [])"
      unfolding order by auto
    then show "text' c \<noteq> [] \<and> (\<exists>s e. start c = Num s \<and> end' c = Num e \<and> 0 \<le> s \<and> 0 \<le> e) \<and>
      fontSize c = None \<and> position c = None"
      by (rule parseBlock_captions)
  qed
qed

lemmas srt_eval = parseSrt_def srtBlocks_def parseBlock_def trim_def isSpace_def
  split_def matchTimeLineAt_def isDigit_def timeToSeconds_def splitClass_def
  isTimeSeparator_def parseInt_def decimalValue_def digitValue_def Let_def

text \<open>
  A file whose first block lacks the milliseconds: the block is dropped and the second
  block, with a dot and a comma as separators, is kept.
\<close>

theorem srt_parser_witness:
  "parseSrt brokenSrt =
     [\<lparr>text' = ''kept'', start = Num 3, end' = Num 4.25, fontSize = None, position = None\<rparr>] \<and>
   timeMatch ''00:00:03.000 --> 00:00:04,250'' = Some (''00:00:03.000'', ''00:00:04,250'') \<and>
   timeToSeconds ''01:02:03.004'' = Num 3723.004"
proof -
  note inst = srt_parser[where srtText = brokenSrt and before = "[]"
      and block = "''1\<newline>00:00:01 --> 00:00:02\<newline>lost''"
      and after = "[''2\<newline>00:00:03.000 --> 00:00:04,250\<newline>kept'']"
      and captions = "[]"
      and block' = "''2\<newline>00:00:03.000 --> 00:00:04,250\<newline>kept''"
      and index = "''2''" and line = "''00:00:03.000 --> 00:00:04,250''" and rest = "[''kept'']"
      and first = "''00:00:03.000''" and second = "''00:00:04,250''"
      and ?h1.0 = "CHR ''0''" and ?h2.0 = "CHR ''1''" and ?m1.0 = "CHR ''0''" and ?m2.0 = "CHR ''2''"
      and ?s1.0 = "CHR ''0''" and ?s2.0 = "CHR ''3''" and sep = "CHR ''.''"
      and ?f1.0 = "CHR ''0''" and ?f2.0 = "CHR ''0''" and ?f3.0 = "CHR ''4''"
      and other = "''00:00:04,250''"]
  have blocks: "srtBlocks brokenSrt =
      [] @ ''1\<newline>00:00:01 --> 00:00:02\<newline>lost'' #
      [''2\<newline>00:00:03.000 --> 00:00:04,250\<newline>kept'']"
    by (simp add: srtBlocks_def brokenSrt_def split_def)
  have lines: "1 < length (split [CHR 0x0A] ''1\<newline>00:00:01 --> 00:00:02\<newline>lost'')"
    by (simp add: split_def)
  have unmatched: "timeMatch (split [CHR 0x0A] ''1\<newline>00:00:01 --> 00:00:02\<newline>lost'' ! 1) = None"
    by (simp add: split_def matchTimeLineAt_def isDigit_def)
  from inst blocks lines unmatched have
    "parseSrt brokenSrt =
       fold parseBlock ([] @ [''2\<newline>00:00:03.000 --> 00:00:04,250\<newline>kept'']) []"
    by blast
  then have 1: "parseSrt brokenSrt =
     [\<lparr>text' = ''kept'', start = Num 3, end' = Num 4.25, fontSize = None, position = None\<rparr>]"
    by (simp add: srt_eval)
  have 2: "timeMatch ''00:00:03.000 --> 00:00:04,250'' = Some (''00:00:03.000'', ''00:00:04,250'')"
    by (simp add: matchTimeLineAt_def isDigit_def isSpace_def)
  have 3: "timeToSeconds ''01:02:03.004'' = Num 3723.004"
    by (simp add: srt_eval)
  from 1 2 3 show ?thesis by simp
qed

text \<open>The file of the counterexample: both captions, in the order of the file.\<close>

theorem srt_captions_witness:
  "map text' (parseSrt unorderedSrt) = [''late'', ''early''] \<and>
   map start (parseSrt unorderedSrt) = [Num 5, Num 1] \<and>
   map end' (parseSrt unorderedSrt) = [Num 2, Num 3]"
  using srt_captions[of unorderedSrt]
  by (simp add: srt_eval unorderedSrt_def)

end
